theory Spec2Isabelle
  imports Main
begin

section \<open>Data model of runtime/debug/mod.go\<close>

text \<open>
  Go strings and byte slices are sequences of bytes: \<^typ>\<open>string\<close> (a list of 8-bit
  characters). The two separators of the text format are the bytes 9 and 10.
\<close>

definition tab :: char where
  "tab = CHR 0x09"

definition newline :: char where
  "newline = CHR 0x0A"

text \<open>
  \<^verbatim>\<open>type Module struct { Path, Version, Sum string; Replace *Module }\<close>.
  The pointer \<^verbatim>\<open>Replace\<close> is \<open>None\<close> when nil; the Go type allows chains of any depth.
\<close>

datatype Module =
  Module (Path: string) (Version: string) (Sum: string) (Replace: "Module option")

text \<open>
  \<^verbatim>\<open>type BuildInfo struct { Path string; Main Module; Deps []*Module }\<close>.
  The fields carry the prefix \<open>bi_\<close> because \<open>Path\<close> is already the selector of
  \<^typ>\<open>Module\<close>. An entry of \<^verbatim>\<open>Deps\<close> is a pointer, so it may be nil (\<open>None\<close>).
\<close>

record BuildInfo =
  bi_Path :: string
  bi_Main :: Module
  bi_Deps :: "Module option list"

definition zeroModule :: Module where
  "zeroModule = Module [] [] [] None"

definition zeroBuildInfo :: BuildInfo where
  "zeroBuildInfo = \<lparr>bi_Path = [], bi_Main = zeroModule, bi_Deps = []\<rparr>"

section \<open>The functions of package bytes that the decoder calls\<close>

text \<open>
  \<^verbatim>\<open>bytes.HasPrefix(s, prefix)\<close>:
  \<^verbatim>\<open>len(s) >= len(prefix) && Equal(s[:len(prefix)], prefix)\<close>.
\<close>

definition HasPrefix :: "string \<Rightarrow> string \<Rightarrow> bool" where
  "HasPrefix s pre \<longleftrightarrow> length pre \<le> length s \<and> take (length pre) s = pre"

text \<open>
  \<^verbatim>\<open>bytes.Cut(s, sep)\<close> for a separator of one byte: the text before the first \<open>sep\<close>,
  the text after it, and whether \<open>sep\<close> occurs; \<^verbatim>\<open>(s, nil, false)\<close> when it does not.
\<close>

definition Cut :: "string \<Rightarrow> char \<Rightarrow> string \<times> string \<times> bool" where
  "Cut s sep =
     (if sep \<in> set s
      then (takeWhile (\<lambda>c. c \<noteq> sep) s, tl (dropWhile (\<lambda>c. c \<noteq> sep) s), True)
      else (s, [], False))"

text \<open>
  \<^verbatim>\<open>bytes.Split(s, sep)\<close> for a separator of one byte: every piece between two
  separators, so one piece more than there are separators (one piece, \<open>s\<close> itself, when
  \<open>sep\<close> does not occur, also for the empty \<open>s\<close>).
\<close>

fun Split :: "string \<Rightarrow> char \<Rightarrow> string list" where
  "Split [] sep = [[]]"
| "Split (c # cs) sep =
     (if c = sep then [] # Split cs sep
      else (case Split cs sep of
              [] \<Rightarrow> [[c]]
            | e # es \<Rightarrow> (c # e) # es))"

text \<open>The Go slice expression \<^verbatim>\<open>s[lo:hi]\<close> (used with \<open>lo \<le> hi \<le> len(s)\<close>).\<close>

definition slice :: "string \<Rightarrow> nat \<Rightarrow> nat \<Rightarrow> string" where
  "slice s lo hi = drop lo (take hi s)"

section \<open>MarshalText\<close>

text \<open>
  The closure \<^verbatim>\<open>formatMod\<close> writes to the buffer \<^verbatim>\<open>buf\<close>; the model returns the
  bytes it writes, in order. It recurses through \<^verbatim>\<open>Replace\<close> with the word \<open>=>\<close>.
\<close>

fun formatMod :: "string \<Rightarrow> Module \<Rightarrow> string" where
  "formatMod word (Module p v s r) =
     word @ [tab] @ p @ [tab] @ (if v = [] then ''(devel)'' else v) @
     (case r of
        None \<Rightarrow> [tab] @ s
      | Some m \<Rightarrow> [newline] @ formatMod ''=>'' m) @
     [newline]"

text \<open>
  Dereferencing a nil entry of \<^verbatim>\<open>Deps\<close> (\<^verbatim>\<open>*dep\<close>) is a run-time panic.
\<close>

datatype panic = NilDereference

text \<open>The loop \<^verbatim>\<open>for _, dep := range bi.Deps { formatMod("dep", *dep) }\<close>.\<close>

fun formatDeps :: "Module option list \<Rightarrow> panic + string" where
  "formatDeps [] = Inr []"
| "formatDeps (None # ds) = Inl NilDereference"
| "formatDeps (Some d # ds) =
     (case formatDeps ds of
        Inl e \<Rightarrow> Inl e
      | Inr out \<Rightarrow> Inr (formatMod ''dep'' d @ out))"

definition MarshalText :: "BuildInfo \<Rightarrow> panic + string" where
  "MarshalText b =
     (case formatDeps (bi_Deps b) of
        Inl e \<Rightarrow> Inl e
      | Inr deps \<Rightarrow>
          Inr ((if bi_Path b \<noteq> [] then ''path'' @ [tab] @ bi_Path b @ [newline] else []) @
               (if Path (bi_Main b) \<noteq> [] then formatMod ''mod'' (bi_Main b) else []) @
               deps))"

section \<open>UnmarshalText\<close>

definition pathLine :: string where
  "pathLine = ''path'' @ [tab]"

definition modLine :: string where
  "modLine = ''mod'' @ [tab]"

definition depLine :: string where
  "depLine = ''dep'' @ [tab]"

definition repLine :: string where
  "repLine = ''=>'' @ [tab]"

text \<open>
  The three \<^verbatim>\<open>fmt.Errorf\<close> causes, and the error the deferred function returns:
  \<^verbatim>\<open>could not parse Go build info: line %d: %w\<close>.
\<close>

datatype cause =
  ExpectedColumns2or3 nat
  | ExpectedColumns3 nat
  | NoModuleOnPreviousLine

datatype FormatError = FormatError (line: nat) (cause: cause)

text \<open>
  \<^verbatim>\<open>readModuleLine\<close> returns both a module and an error, as in Go: the zero module
  with the error, or the module read with nil.
\<close>

definition readModuleLine :: "string list \<Rightarrow> Module \<times> cause option" where
  "readModuleLine elem =
     (if length elem \<noteq> 2 \<and> length elem \<noteq> 3
      then (zeroModule, Some (ExpectedColumns2or3 (length elem)))
      else (Module (elem ! 0) (elem ! 1) (if length elem = 3 then elem ! 2 else []) None,
            None))"

text \<open>
  The pointer \<^verbatim>\<open>last *Module\<close>: nil, \<^verbatim>\<open>&bi.Main\<close>, or the module allocated by a dep
  line, which is the entry of \<^verbatim>\<open>bi.Deps\<close> at a known index.
\<close>

datatype modptr = NilPtr | MainPtr | DepPtr nat

text \<open>The variables of the loop: the receiver, \<^verbatim>\<open>last\<close> and \<^verbatim>\<open>lineNum\<close>.\<close>

record scanner =
  bi :: BuildInfo
  last_ptr :: modptr
  lineNum :: nat

text \<open>\<^verbatim>\<open>last.Replace = &Module{...}\<close>, a store through the pointer.\<close>

definition withReplace :: "Module \<Rightarrow> Module \<Rightarrow> Module" where
  "withReplace r m = Module (Path m) (Version m) (Sum m) (Some r)"

definition setReplace :: "modptr \<Rightarrow> Module \<Rightarrow> BuildInfo \<Rightarrow> BuildInfo" where
  "setReplace p r b =
     (case p of
        NilPtr \<Rightarrow> b
      | MainPtr \<Rightarrow> b\<lparr>bi_Main := withReplace r (bi_Main b)\<rparr>
      | DepPtr i \<Rightarrow>
          b\<lparr>bi_Deps := (bi_Deps b)[i := map_option (withReplace r) (bi_Deps b ! i)]\<rparr>)"

text \<open>
  The \<^verbatim>\<open>switch\<close> of the loop body on one line. The state is returned also with an
  error, since the receiver keeps what was stored before the \<^verbatim>\<open>return err\<close>.
\<close>

definition processLine :: "scanner \<Rightarrow> string \<Rightarrow> scanner \<times> cause option" where
  "processLine st ln =
     (if HasPrefix ln pathLine then
        (st\<lparr>bi := (bi st)\<lparr>bi_Path := drop (length pathLine) ln\<rparr>\<rparr>, None)
      else if HasPrefix ln modLine then
        (case readModuleLine (Split (drop (length modLine) ln) tab) of
           (m, err) \<Rightarrow> (st\<lparr>bi := (bi st)\<lparr>bi_Main := m\<rparr>, last_ptr := MainPtr\<rparr>, err))
      else if HasPrefix ln depLine then
        (case readModuleLine (Split (drop (length depLine) ln) tab) of
           (m, err) \<Rightarrow>
             (st\<lparr>bi := (bi st)\<lparr>bi_Deps := bi_Deps (bi st) @ [Some m]\<rparr>,
                 last_ptr := DepPtr (length (bi_Deps (bi st)))\<rparr>, err))
      else if HasPrefix ln repLine then
        (let elem = Split (drop (length repLine) ln) tab in
         if length elem \<noteq> 3 then (st, Some (ExpectedColumns3 (length elem)))
         else if last_ptr st = NilPtr then (st, Some NoModuleOnPreviousLine)
         else (st\<lparr>bi := setReplace (last_ptr st)
                           (Module (elem ! 0) (elem ! 1) (elem ! 2) None) (bi st),
                  last_ptr := NilPtr\<rparr>, None))
      else (st, None))"

lemma Cut_rest_shorter:
  assumes "(ln, rest, True) = Cut data sep"
  shows "length rest < length data"
proof -
  from assms have mem: "sep \<in> set data" and rest: "rest = tl (dropWhile (\<lambda>c. c \<noteq> sep) data)"
    by (auto simp: Cut_def split: if_splits)
  from mem have "dropWhile (\<lambda>c. c \<noteq> sep) data \<noteq> []"
    by simp
  then have "length rest < length (dropWhile (\<lambda>c. c \<noteq> sep) data)"
    by (simp add: rest)
  also have "\<dots> \<le> length data"
    by (rule length_dropWhile_le)
  finally show ?thesis .
qed

text \<open>
  The loop \<^verbatim>\<open>for len(data) > 0\<close>: it stops at the first text without a newline
  (\<^verbatim>\<open>break\<close>), returns at the first error, and counts the line otherwise.
\<close>

function scan :: "scanner \<Rightarrow> string \<Rightarrow> scanner \<times> cause option" where
  "scan st data =
     (if length data > 0 then
        (case Cut data newline of
           (ln, rest, ok) \<Rightarrow>
             if \<not> ok then (st, None)
             else (case processLine st ln of
                     (st', Some err) \<Rightarrow> (st', Some err)
                   | (st', None) \<Rightarrow> scan (st'\<lparr>lineNum := lineNum st' + 1\<rparr>) rest))
      else (st, None))"
  by pat_completeness auto
termination
  by (relation "measure (\<lambda>(st, data). length data)") (auto dest: Cut_rest_shorter)

declare scan.simps [simp del]

text \<open>
  \<^verbatim>\<open>*bi = BuildInfo{}\<close> stores the zero value in every field of the receiver; the
  deferred function wraps a cause with the line number reached.
\<close>

definition UnmarshalText :: "BuildInfo \<Rightarrow> string \<Rightarrow> BuildInfo \<times> FormatError option" where
  "UnmarshalText recv data =
     (case scan \<lparr>bi = recv\<lparr>bi_Path := [], bi_Main := zeroModule, bi_Deps := []\<rparr>,
                 last_ptr = NilPtr, lineNum = 1\<rparr> data of
        (st, err) \<Rightarrow> (bi st, map_option (FormatError (lineNum st)) err))"

section \<open>ReadBuildInfo\<close>

text \<open>
  \<^verbatim>\<open>modinfo()\<close> is exported from the runtime; its result is the parameter. The result
  \<^verbatim>\<open>(nil, false)\<close> is \<open>None\<close> and \<^verbatim>\<open>(bi, true)\<close> is \<open>Some bi\<close>.
\<close>

definition ReadBuildInfo :: "string \<Rightarrow> BuildInfo option" where
  "ReadBuildInfo modinfo =
     (if length modinfo < 32 then None
      else (case UnmarshalText zeroBuildInfo (slice modinfo 16 (length modinfo - 16)) of
              (b, Some err) \<Rightarrow> None
            | (b, None) \<Rightarrow> Some b))"

section \<open>Vocabulary of the properties\<close>

text \<open>The input of the decoder that consists of the lines \<open>ls\<close>, each with its newline.\<close>

definition unlines :: "string list \<Rightarrow> string" where
  "unlines ls = concat (map (\<lambda>l. l @ [newline]) ls)"

text \<open>A field that the text format can carry: it holds neither separator.\<close>

definition plainField :: "string \<Rightarrow> bool" where
  "plainField s \<longleftrightarrow> tab \<notin> set s \<and> newline \<notin> set s"

text \<open>
  A replacement that one \<open>=>\<close> line carries: plain fields and no replacement of its own.
\<close>

definition plainReplace :: "Module \<Rightarrow> bool" where
  "plainReplace r \<longleftrightarrow>
     plainField (Path r) \<and> plainField (Version r) \<and> plainField (Sum r) \<and> Replace r = None"

text \<open>
  A module that a mod or dep line (with its \<open>=>\<close> line) carries. The checksum of a
  module with a replacement is not written, so it is not constrained.
\<close>

definition plainModule :: "Module \<Rightarrow> bool" where
  "plainModule m \<longleftrightarrow>
     plainField (Path m) \<and> plainField (Version m) \<and>
     (case Replace m of None \<Rightarrow> plainField (Sum m) | Some r \<Rightarrow> plainReplace r)"

definition plainDep :: "Module option \<Rightarrow> bool" where
  "plainDep d = (case d of None \<Rightarrow> False | Some m \<Rightarrow> plainModule m)"

text \<open>
  A BuildInfo whose text decodes line by line as it was written: the path holds no
  newline, the main module (written only when its path is not empty) and every
  dependency are plain, and no dependency is nil.
\<close>

definition plainInfo :: "BuildInfo \<Rightarrow> bool" where
  "plainInfo x \<longleftrightarrow>
     newline \<notin> set (bi_Path x) \<and>
     (Path (bi_Main x) = [] \<or> plainModule (bi_Main x)) \<and>
     list_all plainDep (bi_Deps x)"

text \<open>The version that \<^verbatim>\<open>formatMod\<close> writes.\<close>

definition develVersion :: "string \<Rightarrow> string" where
  "develVersion v = (if v = [] then ''(devel)'' else v)"

text \<open>
  What a cycle of encoding and decoding makes of a plain module: the version written,
  no checksum for a module with a replacement, and the replacement with its version
  written.
\<close>

definition decodedReplace :: "Module \<Rightarrow> Module" where
  "decodedReplace r = Module (Path r) (develVersion (Version r)) (Sum r) None"

definition decodedModule :: "Module \<Rightarrow> Module" where
  "decodedModule m =
     (case Replace m of
        None \<Rightarrow> Module (Path m) (develVersion (Version m)) (Sum m) None
      | Some r \<Rightarrow> Module (Path m) (develVersion (Version m)) [] (Some (decodedReplace r)))"

definition decodedInfo :: "BuildInfo \<Rightarrow> BuildInfo" where
  "decodedInfo x =
     \<lparr>bi_Path = bi_Path x,
      bi_Main = (if Path (bi_Main x) = [] then zeroModule else decodedModule (bi_Main x)),
      bi_Deps = map (map_option decodedModule) (bi_Deps x)\<rparr>"

text \<open>Every version field of a module and of its chain of replacements is set.\<close>

fun versionsSet :: "Module \<Rightarrow> bool" where
  "versionsSet (Module p v s r) =
     (v \<noteq> [] \<and> (case r of None \<Rightarrow> True | Some m \<Rightarrow> versionsSet m))"

definition allVersionsSet :: "BuildInfo \<Rightarrow> bool" where
  "allVersionsSet x \<longleftrightarrow>
     versionsSet (bi_Main x) \<and>
     list_all (\<lambda>d. case d of None \<Rightarrow> True | Some m \<Rightarrow> versionsSet m) (bi_Deps x)"

text \<open>A module with a replacement holds no checksum of its own.\<close>

definition sumOnlyUnreplaced :: "Module \<Rightarrow> bool" where
  "sumOnlyUnreplaced m \<longleftrightarrow> Replace m = None \<or> Sum m = []"

definition allSumsWritten :: "BuildInfo \<Rightarrow> bool" where
  "allSumsWritten x \<longleftrightarrow>
     sumOnlyUnreplaced (bi_Main x) \<and>
     list_all (\<lambda>d. case d of None \<Rightarrow> True | Some m \<Rightarrow> sumOnlyUnreplaced m) (bi_Deps x)"

text \<open>A replacement has no replacement of its own.\<close>

definition depthAtMost1 :: "Module \<Rightarrow> bool" where
  "depthAtMost1 m = (case Replace m of None \<Rightarrow> True | Some r \<Rightarrow> Replace r = None)"

definition replaceDepthAtMost1 :: "BuildInfo \<Rightarrow> bool" where
  "replaceDepthAtMost1 b \<longleftrightarrow>
     depthAtMost1 (bi_Main b) \<and>
     list_all (\<lambda>d. case d of None \<Rightarrow> True | Some m \<Rightarrow> depthAtMost1 m) (bi_Deps b)"

text \<open>
  A line that the \<^verbatim>\<open>switch\<close> sends to no module case: it starts with none of
  \<open>mod\<close>, \<open>dep\<close> and \<open>=>\<close> followed by a tab (or it is a path line).
\<close>

definition noModuleLine :: "string \<Rightarrow> bool" where
  "noModuleLine l \<longleftrightarrow>
     newline \<notin> set l \<and>
     (HasPrefix l pathLine \<or>
      \<not> HasPrefix l modLine \<and> \<not> HasPrefix l depLine \<and> \<not> HasPrefix l repLine)"

text \<open>
  The pointer \<^verbatim>\<open>last\<close> is nil, or \<^verbatim>\<open>&bi.Main\<close>, or the last entry of \<^verbatim>\<open>bi.Deps\<close>,
  which is not nil.
\<close>

definition ptrValid :: "scanner \<Rightarrow> bool" where
  "ptrValid st =
     (case last_ptr st of
        DepPtr i \<Rightarrow> Suc i = length (bi_Deps (bi st)) \<and> bi_Deps (bi st) ! i \<noteq> None
      | _ \<Rightarrow> True)"

text \<open>The variables of the loop when it is entered.\<close>

definition loopEntry :: scanner where
  "loopEntry = \<lparr>bi = zeroBuildInfo, last_ptr = NilPtr, lineNum = 1\<rparr>"

text \<open>
  The text \<open>t\<close>, wherever it stands in the input, is read to its end without an
  error and changes the receiver by \<open>f\<close>.
\<close>

definition consumes :: "string \<Rightarrow> (BuildInfo \<Rightarrow> BuildInfo) \<Rightarrow> bool" where
  "consumes t f \<longleftrightarrow>
     (\<forall>st rest. \<exists>st'. scan st (t @ rest) = scan st' rest \<and> bi st' = f (bi st))"

section \<open>Splitting and cutting\<close>

lemma Split_not_Nil: "Split s sep \<noteq> []"
  by (induction s) (auto split: list.splits)

lemma Split_no_sep: "sep \<notin> set s \<Longrightarrow> Split s sep = [s]"
  by (induction s) auto

lemma Split_field: "sep \<notin> set a \<Longrightarrow> Split (a @ sep # b) sep = a # Split b sep"
  by (induction a) auto

text \<open>The number of columns of a line is one more than the number of its tabs.\<close>

lemma length_Split: "length (Split s sep) = Suc (count_list s sep)"
  by (induction s) (auto split: list.splits simp: Split_not_Nil)

lemma Cut_line: "sep \<notin> set l \<Longrightarrow> Cut (l @ sep # rest) sep = (l, rest, True)"
proof -
  assume "sep \<notin> set l"
  then have "takeWhile (\<lambda>c. c \<noteq> sep) (l @ sep # rest) = l"
    and "dropWhile (\<lambda>c. c \<noteq> sep) (l @ sep # rest) = sep # rest"
    by (induction l) auto
  then show ?thesis
    by (simp add: Cut_def)
qed

lemma Cut_no_sep: "sep \<notin> set s \<Longrightarrow> Cut s sep = (s, [], False)"
  by (simp add: Cut_def)

lemma first_line:
  assumes "newline \<in> set s"
  obtains l rest where "s = l @ newline # rest" and "newline \<notin> set l"
  using assms by (auto dest: split_list_first)

section \<open>The loop, line by line\<close>

lemma scan_Nil: "scan st [] = (st, None)"
  by (simp add: scan.simps)

lemma scan_unterminated: "newline \<notin> set data \<Longrightarrow> scan st data = (st, None)"
  by (simp add: scan.simps Cut_no_sep)

lemma scan_line:
  "newline \<notin> set l \<Longrightarrow>
   scan st (l @ newline # rest) =
     (case processLine st l of
        (st', Some err) \<Rightarrow> (st', Some err)
      | (st', None) \<Rightarrow> scan (st'\<lparr>lineNum := lineNum st' + 1\<rparr>) rest)"
  by (subst scan.simps) (simp add: Cut_line)

lemma scan_fragment: "newline \<notin> set frag \<Longrightarrow> scan st (s @ frag) = scan st s"
proof (induction "length s" arbitrary: s st rule: less_induct)
  case less
  show ?case
  proof (cases "newline \<in> set s")
    case False
    with less.prems show ?thesis
      by (simp add: scan_unterminated)
  next
    case True
    then obtain l rest where s: "s = l @ newline # rest" and l: "newline \<notin> set l"
      by (rule first_line)
    have "scan st' (rest @ frag) = scan st' rest" for st'
      using less.hyps [of rest st'] less.prems by (simp add: s)
    with l show ?thesis
      by (simp add: s scan_line split: prod.splits option.splits)
  qed
qed

lemma processLine_lineNum: "lineNum (fst (processLine st l)) = lineNum st"
  by (simp add: processLine_def Let_def split: prod.splits)

text \<open>
  A prefix of complete lines that is read without an error: the loop goes on from the
  state reached, and the line counter has advanced by the number of its lines.
\<close>

lemma scan_complete_lines:
  "pre = [] \<or> last pre = newline \<Longrightarrow> scan st pre = (st', None) \<Longrightarrow>
   scan st (pre @ rest) = scan st' rest \<and> lineNum st' = lineNum st + count_list pre newline"
proof (induction "length pre" arbitrary: pre st rule: less_induct)
  case less
  show ?case
  proof (cases "pre = []")
    case True
    with less.prems show ?thesis
      by (simp add: scan_Nil)
  next
    case False
    with less.prems have "last pre = newline"
      by simp
    with False have "newline \<in> set pre"
      by (metis last_in_set)
    then obtain l more where pre: "pre = l @ newline # more" and l: "newline \<notin> set l"
      by (rule first_line)
    from pre \<open>last pre = newline\<close> have more: "more = [] \<or> last more = newline"
      by (cases "more = []") simp_all
    obtain st1 e1 where p: "processLine st l = (st1, e1)"
      by (cases "processLine st l")
    from less.prems(2) l p have e1: "e1 = None"
      and rec: "scan (st1\<lparr>lineNum := lineNum st1 + 1\<rparr>) more = (st', None)"
      by (auto simp: pre scan_line split: option.splits)
    have ih: "scan (st1\<lparr>lineNum := lineNum st1 + 1\<rparr>) (more @ rest) = scan st' rest \<and>
        lineNum st' = lineNum (st1\<lparr>lineNum := lineNum st1 + 1\<rparr>) + count_list more newline"
      using less.hyps [of more "st1\<lparr>lineNum := lineNum st1 + 1\<rparr>"] more rec by (simp add: pre)
    moreover have "lineNum st1 = lineNum st"
      using processLine_lineNum [of st l] p by simp
    moreover have "count_list l newline = 0"
      using l by (simp add: count_list_0_iff)
    ultimately show ?thesis
      using l p e1 by (simp add: pre scan_line)
  qed
qed

section \<open>The switch, case by case\<close>

lemma tab_not_newline: "tab \<noteq> newline"
  by (simp add: tab_def newline_def)

lemma HasPrefix_same: "HasPrefix (p @ r) p"
  by (simp add: HasPrefix_def)

lemma modLine_kind: "\<not> HasPrefix (modLine @ r) pathLine"
  by (simp add: HasPrefix_def modLine_def pathLine_def)

lemma depLine_kind: "\<not> HasPrefix (depLine @ r) pathLine" "\<not> HasPrefix (depLine @ r) modLine"
  by (simp_all add: HasPrefix_def modLine_def pathLine_def depLine_def)

lemma repLine_kind:
  "\<not> HasPrefix (repLine @ r) pathLine" "\<not> HasPrefix (repLine @ r) modLine"
  "\<not> HasPrefix (repLine @ r) depLine"
  by (simp_all add: HasPrefix_def modLine_def pathLine_def depLine_def repLine_def)

lemma processLine_path:
  "processLine st (pathLine @ p) = (st\<lparr>bi := (bi st)\<lparr>bi_Path := p\<rparr>\<rparr>, None)"
  by (simp add: processLine_def HasPrefix_same)

lemma processLine_mod:
  "processLine st (modLine @ r) =
     (case readModuleLine (Split r tab) of
        (m, err) \<Rightarrow> (st\<lparr>bi := (bi st)\<lparr>bi_Main := m\<rparr>, last_ptr := MainPtr\<rparr>, err))"
  by (simp add: processLine_def HasPrefix_same modLine_kind)

lemma processLine_dep:
  "processLine st (depLine @ r) =
     (case readModuleLine (Split r tab) of
        (m, err) \<Rightarrow>
          (st\<lparr>bi := (bi st)\<lparr>bi_Deps := bi_Deps (bi st) @ [Some m]\<rparr>,
              last_ptr := DepPtr (length (bi_Deps (bi st)))\<rparr>, err))"
  by (simp add: processLine_def HasPrefix_same depLine_kind)

lemma processLine_rep:
  "processLine st (repLine @ r) =
     (let elem = Split r tab in
      if length elem \<noteq> 3 then (st, Some (ExpectedColumns3 (length elem)))
      else if last_ptr st = NilPtr then (st, Some NoModuleOnPreviousLine)
      else (st\<lparr>bi := setReplace (last_ptr st)
                        (Module (elem ! 0) (elem ! 1) (elem ! 2) None) (bi st),
               last_ptr := NilPtr\<rparr>, None))"
  by (simp add: processLine_def HasPrefix_same repLine_kind)

lemma processLine_noModuleLine:
  "noModuleLine l \<Longrightarrow>
   \<exists>st'. processLine st l = (st', None) \<and> last_ptr st' = last_ptr st \<and>
     lineNum st' = lineNum st \<and> bi_Main (bi st') = bi_Main (bi st) \<and>
     bi_Deps (bi st') = bi_Deps (bi st)"
  by (auto simp: noModuleLine_def processLine_def)

lemma processLine_empty: "processLine st [] = (st, None)"
  by (simp add: processLine_def HasPrefix_def pathLine_def modLine_def depLine_def repLine_def)

lemma readModuleLine2: "readModuleLine [p, v] = (Module p v [] None, None)"
  by (simp add: readModuleLine_def)

lemma readModuleLine3: "readModuleLine [p, v, s] = (Module p v s None, None)"
  by (simp add: readModuleLine_def)

lemma Split2: "tab \<notin> set p \<Longrightarrow> tab \<notin> set v \<Longrightarrow> Split (p @ tab # v) tab = [p, v]"
  by (simp add: Split_field Split_no_sep)

lemma Split3:
  "tab \<notin> set p \<Longrightarrow> tab \<notin> set v \<Longrightarrow> tab \<notin> set s \<Longrightarrow>
   Split (p @ tab # v @ tab # s) tab = [p, v, s]"
  by (simp add: Split_field Split_no_sep)

lemma plainField_develVersion: "plainField v \<Longrightarrow> plainField (develVersion v)"
  by (simp add: plainField_def develVersion_def tab_def newline_def)

lemma consumes_Nil: "consumes [] (\<lambda>b. b)"
  by (auto simp: consumes_def)

lemma consumes_append:
  assumes "consumes t f" and "consumes u g"
  shows "consumes (t @ u) (\<lambda>b. g (f b))"
  unfolding consumes_def
proof (intro allI)
  fix st rest
  from assms(1) obtain st1 where 1: "scan st (t @ (u @ rest)) = scan st1 (u @ rest)"
    and b1: "bi st1 = f (bi st)"
    unfolding consumes_def by blast
  from assms(2) obtain st2 where 2: "scan st1 (u @ rest) = scan st2 rest"
    and b2: "bi st2 = g (bi st1)"
    unfolding consumes_def by blast
  from 1 2 b1 b2 show "\<exists>st'. scan st ((t @ u) @ rest) = scan st' rest \<and> bi st' = g (f (bi st))"
    by auto
qed

lemma consumes_line:
  assumes "newline \<notin> set l" and "\<And>st. \<exists>st'. processLine st l = (st', None) \<and> bi st' = f (bi st)"
  shows "consumes (l @ [newline]) f"
  unfolding consumes_def
proof (intro allI)
  fix st rest
  from assms(2) obtain st' where "processLine st l = (st', None)" and "bi st' = f (bi st)"
    by blast
  with assms(1) have "scan st ((l @ [newline]) @ rest) = scan (st'\<lparr>lineNum := lineNum st' + 1\<rparr>) rest \<and> bi (st'\<lparr>lineNum := lineNum st' + 1\<rparr>) = f (bi st)"
    by (simp add: scan_line)
  then show "\<exists>st'. scan st ((l @ [newline]) @ rest) = scan st' rest \<and> bi st' = f (bi st)"
    by blast
qed

section \<open>Reading back what formatMod writes\<close>

lemma formatMod_unreplaced:
  "Replace m = None \<Longrightarrow>
   formatMod w m = (w @ [tab] @ Path m @ tab # develVersion (Version m) @ tab # Sum m) @ [newline]"
  by (cases m) (simp add: develVersion_def)

lemma formatMod_replaced:
  "Replace m = Some r \<Longrightarrow> Replace r = None \<Longrightarrow>
   formatMod w m =
     (w @ [tab] @ Path m @ tab # develVersion (Version m)) @ newline #
     (repLine @ Path r @ tab # develVersion (Version r) @ tab # Sum r) @ newline #
     [] @ newline # []"
  by (cases m; cases r) (simp add: develVersion_def repLine_def)

lemma newline_word:
  "newline \<notin> set modLine" "newline \<notin> set depLine" "newline \<notin> set repLine"
  "newline \<notin> set pathLine"
  by (simp_all add: modLine_def depLine_def repLine_def pathLine_def newline_def tab_def)

lemma setReplace_last_Dep:
  "setReplace (DepPtr (length ds)) r (b\<lparr>bi_Deps := ds @ [Some m]\<rparr>) =
   b\<lparr>bi_Deps := ds @ [Some (withReplace r m)]\<rparr>"
  by (simp add: setReplace_def)

lemma consumes_dep:
  assumes "plainModule m"
  shows "consumes (formatMod ''dep'' m) (\<lambda>b. b\<lparr>bi_Deps := bi_Deps b @ [Some (decodedModule m)]\<rparr>)"
proof (cases "Replace m")
  case None
  with assms have f: "plainField (Path m)" "plainField (develVersion (Version m))" "plainField (Sum m)"
    by (simp_all add: plainModule_def plainField_develVersion)
  let ?cols = "Path m @ tab # develVersion (Version m) @ tab # Sum m"
  have enc: "formatMod ''dep'' m = (depLine @ ?cols) @ [newline]"
    using None by (simp add: formatMod_unreplaced depLine_def)
  have nl: "newline \<notin> set (depLine @ ?cols)"
    using f by (simp add: plainField_def newline_word tab_not_newline [symmetric])
  have "Split ?cols tab = [Path m, develVersion (Version m), Sum m]"
    using f by (simp add: plainField_def Split3)
  then have "\<exists>st'. processLine st (depLine @ ?cols) = (st', None) \<and>
      bi st' = (bi st)\<lparr>bi_Deps := bi_Deps (bi st) @ [Some (decodedModule m)]\<rparr>" for st
    using None by (simp add: processLine_dep readModuleLine3 decodedModule_def)
  with nl show ?thesis
    unfolding enc by (rule consumes_line)
next
  case (Some r)
  with assms have f: "plainField (Path m)" "plainField (develVersion (Version m))"
    and g: "plainField (Path r)" "plainField (develVersion (Version r))" "plainField (Sum r)"
    and r: "Replace r = None"
    by (simp_all add: plainModule_def plainReplace_def plainField_develVersion)
  let ?cols = "Path m @ tab # develVersion (Version m)"
  let ?rcols = "Path r @ tab # develVersion (Version r) @ tab # Sum r"
  have enc: "formatMod ''dep'' m =
      (depLine @ ?cols) @ newline # (repLine @ ?rcols) @ newline # [] @ newline # []"
    using Some r by (simp add: formatMod_replaced depLine_def)
  have nl: "newline \<notin> set (depLine @ ?cols)" "newline \<notin> set (repLine @ ?rcols)"
    using f g by (simp_all add: plainField_def newline_word tab_not_newline [symmetric])
  have s1: "Split ?cols tab = [Path m, develVersion (Version m)]"
    using f by (simp add: plainField_def Split2)
  have s2: "Split ?rcols tab = [Path r, develVersion (Version r), Sum r]"
    using g by (simp add: plainField_def Split3)
  show ?thesis
    unfolding consumes_def
  proof (intro allI)
    fix st :: scanner and rest :: string
    let ?d = "bi_Deps (bi st)"
    let ?st1 = "st\<lparr>bi := (bi st)\<lparr>bi_Deps := ?d @ [Some (Module (Path m) (develVersion (Version m)) [] None)]\<rparr>,
        last_ptr := DepPtr (length ?d)\<rparr>"
    let ?b = "(bi st)\<lparr>bi_Deps := ?d @ [Some (decodedModule m)]\<rparr>"
    let ?st2 = "st\<lparr>bi := ?b, last_ptr := NilPtr, lineNum := Suc (lineNum st)\<rparr>"
    let ?st3 = "st\<lparr>bi := ?b, last_ptr := NilPtr, lineNum := Suc (Suc (Suc (lineNum st)))\<rparr>"
    have p1: "processLine st (depLine @ ?cols) = (?st1, None)"
      by (simp add: processLine_dep s1 readModuleLine2)
    have p2: "processLine (?st1\<lparr>lineNum := lineNum ?st1 + 1\<rparr>) (repLine @ ?rcols) = (?st2, None)"
      using Some
      by (simp add: processLine_rep s2 setReplace_last_Dep withReplace_def decodedModule_def
          decodedReplace_def)
    have "scan st (formatMod ''dep'' m @ rest) =
        scan st ((depLine @ ?cols) @ newline # (repLine @ ?rcols) @ newline # [] @ newline # rest)"
      by (simp add: enc)
    also have "\<dots> = scan (?st1\<lparr>lineNum := lineNum ?st1 + 1\<rparr>)
        ((repLine @ ?rcols) @ newline # [] @ newline # rest)"
      by (subst scan_line [OF nl(1)]) (simp add: p1)
    also have "\<dots> = scan (?st2\<lparr>lineNum := lineNum ?st2 + 1\<rparr>) ([] @ newline # rest)"
      using Some
      by (subst scan_line [OF nl(2)])
        (simp add: processLine_rep s2 setReplace_last_Dep withReplace_def decodedModule_def
          decodedReplace_def)
    also have "\<dots> = scan ?st3 rest"
      by (subst scan_line) (simp_all add: processLine_empty)
    finally have "scan st (formatMod ''dep'' m @ rest) = scan ?st3 rest" .
    then show "\<exists>st'. scan st (formatMod ''dep'' m @ rest) = scan st' rest \<and> bi st' = ?b"
      by (intro exI [of _ ?st3]) simp
  qed
qed

section \<open>The properties of the decoder\<close>

lemma reset_receiver:
  "recv\<lparr>bi_Path := [], bi_Main := zeroModule, bi_Deps := []\<rparr> = zeroBuildInfo"
  by (cases recv) (simp add: zeroBuildInfo_def)

text \<open>
  C10. Decoding does not depend on what the receiver held: the first statement of
  \<^verbatim>\<open>UnmarshalText\<close> stores the zero BuildInfo in it, so two receivers give the same
  BuildInfo and the same error on the same input, which are those of a zero receiver.
\<close>

theorem UnmarshalText_receiver_independent:
  "UnmarshalText recv1 data = UnmarshalText recv2 data \<and>
   UnmarshalText recv1 data = UnmarshalText zeroBuildInfo data"
proof -
  have "UnmarshalText recv data =
      (case scan \<lparr>bi = zeroBuildInfo, last_ptr = NilPtr, lineNum = 1\<rparr> data of
         (st, err) \<Rightarrow> (bi st, map_option (FormatError (lineNum st)) err))" for recv
    unfolding UnmarshalText_def reset_receiver ..
  then show ?thesis
    by simp
qed

text \<open>
  C4. A last fragment without a newline is not processed: appending it to any input
  changes neither the BuildInfo decoded nor the error, whatever the fragment holds.
\<close>

theorem UnmarshalText_trailing_fragment:
  assumes "newline \<notin> set frag"
  shows "UnmarshalText recv (s @ frag) = UnmarshalText recv s"
proof -
  have "scan st (s @ frag) = scan st s" for st
    using assms by (rule scan_fragment)
  then show ?thesis
    by (simp add: UnmarshalText_def)
qed

text \<open>
  The fragment \<open>mod\<close>, tab, \<open>A\<close> has one column, an error on a complete line; after
  the line \<open>path\<close>, tab, \<open>x\<close> it leaves the result as it is.
\<close>

theorem UnmarshalText_trailing_fragment_witness:
  "newline \<notin> set (''mod'' @ [tab] @ ''A'') \<and>
   UnmarshalText zeroBuildInfo ((''path'' @ [tab] @ ''x'' @ [newline]) @ (''mod'' @ [tab] @ ''A'')) =
     (\<lparr>bi_Path = ''x'', bi_Main = Module [] [] [] None, bi_Deps = []\<rparr>, None) \<and>
   UnmarshalText zeroBuildInfo ((''mod'' @ [tab] @ ''A'') @ [newline]) =
     (\<lparr>bi_Path = [], bi_Main = Module [] [] [] None, bi_Deps = []\<rparr>,
      Some (FormatError 1 (ExpectedColumns2or3 1)))"
proof -
  have n: "newline \<notin> set (''mod'' @ [tab] @ ''A'')"
    by (simp add: newline_def tab_def)
  have "UnmarshalText zeroBuildInfo (''path'' @ [tab] @ ''x'' @ [newline]) =
     (\<lparr>bi_Path = ''x'', bi_Main = Module [] [] [] None, bi_Deps = []\<rparr>, None)"
    by code_simp
  moreover have "UnmarshalText zeroBuildInfo ((''mod'' @ [tab] @ ''A'') @ [newline]) =
     (\<lparr>bi_Path = [], bi_Main = Module [] [] [] None, bi_Deps = []\<rparr>,
      Some (FormatError 1 (ExpectedColumns2or3 1)))"
    by code_simp
  ultimately show ?thesis
    using n UnmarshalText_trailing_fragment [OF n, of zeroBuildInfo "''path'' @ [tab] @ ''x'' @ [newline]"]
    by simp
qed

section \<open>Replacements are one level deep\<close>

lemma depthAtMost1_withReplace: "Replace r = None \<Longrightarrow> depthAtMost1 (withReplace r m)"
  by (simp add: depthAtMost1_def withReplace_def)

lemma list_all_update: "list_all P xs \<Longrightarrow> P y \<Longrightarrow> list_all P (xs[i := y])"
  by (induction xs arbitrary: i) (auto split: nat.splits)

lemma readModuleLine_depth: "readModuleLine e = (m, err) \<Longrightarrow> depthAtMost1 m"
  by (auto simp: readModuleLine_def zeroModule_def depthAtMost1_def split: if_splits)

lemma setReplace_depth:
  assumes "replaceDepthAtMost1 b" and "Replace r = None"
  shows "replaceDepthAtMost1 (setReplace p r b)"
proof (cases p)
  case NilPtr
  with assms show ?thesis
    by (simp add: setReplace_def)
next
  case MainPtr
  with assms show ?thesis
    by (simp add: setReplace_def replaceDepthAtMost1_def depthAtMost1_withReplace)
next
  case (DepPtr i)
  let ?P = "\<lambda>d. case d of None \<Rightarrow> True | Some m \<Rightarrow> depthAtMost1 m"
  have new: "?P (map_option (withReplace r) d)" for d
    using assms(2) by (cases d) (simp_all add: depthAtMost1_withReplace)
  have "list_all ?P (bi_Deps b)"
    using assms(1) by (simp add: replaceDepthAtMost1_def)
  then have "list_all ?P ((bi_Deps b)[i := map_option (withReplace r) (bi_Deps b ! i)])"
    using new by (rule list_all_update)
  with assms(1) DepPtr show ?thesis
    by (simp add: setReplace_def replaceDepthAtMost1_def)
qed

lemma depth_fields:
  "replaceDepthAtMost1 (b\<lparr>bi_Path := p\<rparr>) = replaceDepthAtMost1 b"
  "depthAtMost1 m \<Longrightarrow> replaceDepthAtMost1 b \<Longrightarrow> replaceDepthAtMost1 (b\<lparr>bi_Main := m\<rparr>)"
  "depthAtMost1 m \<Longrightarrow> replaceDepthAtMost1 b \<Longrightarrow>
   replaceDepthAtMost1 (b\<lparr>bi_Deps := bi_Deps b @ [Some m]\<rparr>)"
  by (simp_all add: replaceDepthAtMost1_def)

lemma processLine_depth:
  assumes "replaceDepthAtMost1 (bi st)"
  shows "replaceDepthAtMost1 (bi (fst (processLine st l)))"
proof -
  have r: "replaceDepthAtMost1 (setReplace p (Module a b c None) (bi st))" for p a b c
    using assms by (simp add: setReplace_depth)
  from assms show ?thesis
    by (auto simp: processLine_def Let_def r depth_fields split: prod.splits
        dest: readModuleLine_depth)
qed

lemma scan_depth:
  "replaceDepthAtMost1 (bi st) \<Longrightarrow> replaceDepthAtMost1 (bi (fst (scan st data)))"
proof (induction "length data" arbitrary: data st rule: less_induct)
  case less
  show ?case
  proof (cases "newline \<in> set data")
    case False
    with less.prems show ?thesis
      by (simp add: scan_unterminated)
  next
    case True
    then obtain l rest where data: "data = l @ newline # rest" and l: "newline \<notin> set l"
      by (rule first_line)
    obtain st1 e1 where p: "processLine st l = (st1, e1)"
      by (cases "processLine st l")
    have st1: "replaceDepthAtMost1 (bi st1)"
      using processLine_depth [OF less.prems, of l] p by simp
    show ?thesis
    proof (cases e1)
      case None
      have "replaceDepthAtMost1 (bi (fst (scan (st1\<lparr>lineNum := lineNum st1 + 1\<rparr>) rest)))"
        using less.hyps [of rest "st1\<lparr>lineNum := lineNum st1 + 1\<rparr>"] st1 by (simp add: data)
      with l p None show ?thesis
        by (simp add: data scan_line)
    next
      case (Some e)
      with l p st1 show ?thesis
        by (simp add: data scan_line)
    qed
  qed
qed

lemma UnmarshalText_depth: "replaceDepthAtMost1 (fst (UnmarshalText recv data))"
proof -
  have "replaceDepthAtMost1 zeroBuildInfo"
    by (simp add: replaceDepthAtMost1_def zeroBuildInfo_def zeroModule_def depthAtMost1_def)
  then have "replaceDepthAtMost1 (bi (fst (scan \<lparr>bi = zeroBuildInfo, last_ptr = NilPtr, lineNum = 1\<rparr> data)))"
    by (intro scan_depth) simp
  then show ?thesis
    by (cases "scan \<lparr>bi = zeroBuildInfo, last_ptr = NilPtr, lineNum = 1\<rparr> data")
      (simp add: UnmarshalText_def reset_receiver)
qed

text \<open>
  C8. After a successful decode, a replacement (of the main module or of a dependency)
  has no replacement of its own.
\<close>

theorem decoded_replace_depth:
  assumes "UnmarshalText recv data = (y, None)"
  shows "(\<forall>r. Replace (bi_Main y) = Some r \<longrightarrow> Replace r = None) \<and>
         (\<forall>d r. Some d \<in> set (bi_Deps y) \<and> Replace d = Some r \<longrightarrow> Replace r = None)"
proof -
  have "replaceDepthAtMost1 y"
    using UnmarshalText_depth [of recv data] assms by simp
  then show ?thesis
    by (force simp: replaceDepthAtMost1_def depthAtMost1_def list_all_iff split: option.splits)
qed

text \<open>The lines \<open>dep a v\<close> and \<open>=> b w h\<close>: the replacement read has none.\<close>

theorem decoded_replace_depth_witness:
  "UnmarshalText zeroBuildInfo
     (''dep'' @ [tab] @ ''a'' @ [tab] @ ''v'' @ [newline] @
      ''=>'' @ [tab] @ ''b'' @ [tab] @ ''w'' @ [tab] @ ''h'' @ [newline]) =
     (\<lparr>bi_Path = [], bi_Main = Module [] [] [] None,
       bi_Deps = [Some (Module ''a'' ''v'' [] (Some (Module ''b'' ''w'' ''h'' None)))]\<rparr>, None) \<and>
   Replace (Module ''b'' ''w'' ''h'' None) = None"
proof -
  have e: "UnmarshalText zeroBuildInfo
     (''dep'' @ [tab] @ ''a'' @ [tab] @ ''v'' @ [newline] @
      ''=>'' @ [tab] @ ''b'' @ [tab] @ ''w'' @ [tab] @ ''h'' @ [newline]) =
     (\<lparr>bi_Path = [], bi_Main = Module [] [] [] None,
       bi_Deps = [Some (Module ''a'' ''v'' [] (Some (Module ''b'' ''w'' ''h'' None)))]\<rparr>, None)"
    by code_simp
  from decoded_replace_depth [OF e] have "Replace (Module ''b'' ''w'' ''h'' None) = None"
    by simp
  with e show ?thesis
    by simp
qed

section \<open>Framing and column counts\<close>

lemma UnmarshalText_loop:
  "UnmarshalText recv data =
     (case scan loopEntry data of (st, err) \<Rightarrow> (bi st, map_option (FormatError (lineNum st)) err))"
  by (simp add: UnmarshalText_def reset_receiver loopEntry_def)

lemma UnmarshalText_Nil: "UnmarshalText recv [] = (zeroBuildInfo, None)"
  by (simp add: UnmarshalText_loop scan_Nil loopEntry_def)

lemma UnmarshalText_prefix:
  assumes "pre = [] \<or> last pre = newline" and "snd (UnmarshalText recv pre) = None"
  shows "\<exists>st. scan loopEntry pre = (st, None) \<and> bi st = fst (UnmarshalText recv pre) \<and>
           lineNum st = Suc (count_list pre newline) \<and>
           (\<forall>rest. scan loopEntry (pre @ rest) = scan st rest)"
proof -
  obtain st e where s: "scan loopEntry pre = (st, e)"
    by (cases "scan loopEntry pre")
  with assms(2) have e: "e = None"
    by (simp add: UnmarshalText_loop)
  from scan_complete_lines [OF assms(1) s [unfolded e]] s e show ?thesis
    by (simp add: UnmarshalText_loop loopEntry_def)
qed

lemma slice_middle:
  "length pre = n \<Longrightarrow> slice (pre @ payload @ post) n (length (pre @ payload @ post) - length post) = payload"
  by (simp add: slice_def)

text \<open>
  C3. Below 32 bytes \<^verbatim>\<open>ReadBuildInfo\<close> reports absence; otherwise it decodes what
  stands between the first 16 and the last 16 bytes (and reports absence when that does
  not decode); 32 bytes, so an empty payload, give the zero BuildInfo.
\<close>

theorem ReadBuildInfo_framing:
  "(length d < 32 \<longrightarrow> ReadBuildInfo d = None) \<and>
   (length pre = 16 \<and> length post = 16 \<longrightarrow>
      ReadBuildInfo (pre @ payload @ post) =
        (case UnmarshalText zeroBuildInfo payload of
           (b, None) \<Rightarrow> Some b
         | (b, Some err) \<Rightarrow> None)) \<and>
   (length e = 32 \<longrightarrow> ReadBuildInfo e = Some zeroBuildInfo)"
proof (intro conjI impI)
  assume "length d < 32"
  then show "ReadBuildInfo d = None"
    by (simp add: ReadBuildInfo_def)
next
  assume a: "length pre = 16 \<and> length post = 16"
  then have "slice (pre @ payload @ post) 16 (length (pre @ payload @ post) - 16) = payload"
    using slice_middle [of pre 16 payload post] by simp
  with a show "ReadBuildInfo (pre @ payload @ post) =
        (case UnmarshalText zeroBuildInfo payload of
           (b, None) \<Rightarrow> Some b
         | (b, Some err) \<Rightarrow> None)"
    by (simp add: ReadBuildInfo_def)
next
  assume "length e = 32"
  then show "ReadBuildInfo e = Some zeroBuildInfo"
    by (simp add: ReadBuildInfo_def slice_def UnmarshalText_Nil)
qed

theorem ReadBuildInfo_framing_witness:
  "ReadBuildInfo ''0123456789abcdef0123456789abcde'' = None \<and>
   ReadBuildInfo (''0123456789abcdef'' @ (''path'' @ [tab] @ ''x'' @ [newline]) @ ''fedcba9876543210'') =
     Some \<lparr>bi_Path = ''x'', bi_Main = Module [] [] [] None, bi_Deps = []\<rparr> \<and>
   ReadBuildInfo (''0123456789abcdef'' @ (''mod'' @ [tab] @ ''x'' @ [newline]) @ ''fedcba9876543210'') = None \<and>
   ReadBuildInfo ''0123456789abcdeffedcba9876543210'' = Some zeroBuildInfo"
proof -
  have 1: "UnmarshalText zeroBuildInfo (''path'' @ [tab] @ ''x'' @ [newline]) =
      (\<lparr>bi_Path = ''x'', bi_Main = Module [] [] [] None, bi_Deps = []\<rparr>, None)"
    by code_simp
  have 2: "UnmarshalText zeroBuildInfo (''mod'' @ [tab] @ ''x'' @ [newline]) =
      (\<lparr>bi_Path = [], bi_Main = Module [] [] [] None, bi_Deps = []\<rparr>,
       Some (FormatError 1 (ExpectedColumns2or3 1)))"
    by code_simp
  show ?thesis
    using ReadBuildInfo_framing [of "''0123456789abcdef0123456789abcde''" "''0123456789abcdef''"
        "''fedcba9876543210''" "''path'' @ [tab] @ ''x'' @ [newline]"
        "''0123456789abcdeffedcba9876543210''"]
      ReadBuildInfo_framing [of "''0123456789abcdef0123456789abcde''" "''0123456789abcdef''"
        "''fedcba9876543210''" "''mod'' @ [tab] @ ''x'' @ [newline]"
        "''0123456789abcdeffedcba9876543210''"] 1 2
    by simp
qed

lemma scan_bad_module_line:
  assumes "newline \<notin> set r" and "length (Split r tab) \<noteq> 2" and "length (Split r tab) \<noteq> 3"
  shows "\<exists>st'. scan st ((modLine @ r) @ newline # rest) =
             (st', Some (ExpectedColumns2or3 (length (Split r tab)))) \<and> lineNum st' = lineNum st"
    and "\<exists>st'. scan st ((depLine @ r) @ newline # rest) =
             (st', Some (ExpectedColumns2or3 (length (Split r tab)))) \<and> lineNum st' = lineNum st"
proof -
  have nl: "newline \<notin> set (modLine @ r)" "newline \<notin> set (depLine @ r)"
    using assms(1) by (simp_all add: newline_word)
  show "\<exists>st'. scan st ((modLine @ r) @ newline # rest) =
      (st', Some (ExpectedColumns2or3 (length (Split r tab)))) \<and> lineNum st' = lineNum st"
    using assms(2,3) by (subst scan_line [OF nl(1)]) (simp add: processLine_mod readModuleLine_def)
  show "\<exists>st'. scan st ((depLine @ r) @ newline # rest) =
      (st', Some (ExpectedColumns2or3 (length (Split r tab)))) \<and> lineNum st' = lineNum st"
    using assms(2,3) by (subst scan_line [OF nl(2)]) (simp add: processLine_dep readModuleLine_def)
qed

lemma scan_bad_replace_line:
  assumes "newline \<notin> set r" and "length (Split r tab) \<noteq> 3"
  shows "scan st ((repLine @ r) @ newline # rest) =
           (st, Some (ExpectedColumns3 (length (Split r tab))))"
proof -
  have nl: "newline \<notin> set (repLine @ r)"
    using assms(1) by (simp add: newline_word)
  show ?thesis
    using assms(2) by (subst scan_line [OF nl]) (simp add: processLine_rep Let_def)
qed

text \<open>
  C5. After complete lines that decode without an error (recognised or not), a mod or
  dep line whose columns are not 2 or 3, and a \<open>=>\<close> line whose columns are not 3,
  make the decoding fail with the count of columns; the line number reported is one more
  than the number of lines before it.
\<close>

theorem column_count_errors:
  assumes "pre = [] \<or> last pre = newline"
    and "snd (UnmarshalText recv pre) = None"
    and "newline \<notin> set r"
  shows "(length (Split r tab) \<noteq> 2 \<and> length (Split r tab) \<noteq> 3 \<longrightarrow>
            snd (UnmarshalText recv (pre @ (modLine @ r) @ newline # rest)) =
              Some (FormatError (count_list pre newline + 1)
                (ExpectedColumns2or3 (length (Split r tab)))) \<and>
            snd (UnmarshalText recv (pre @ (depLine @ r) @ newline # rest)) =
              Some (FormatError (count_list pre newline + 1)
                (ExpectedColumns2or3 (length (Split r tab))))) \<and>
         (length (Split r tab) \<noteq> 3 \<longrightarrow>
            snd (UnmarshalText recv (pre @ (repLine @ r) @ newline # rest)) =
              Some (FormatError (count_list pre newline + 1)
                (ExpectedColumns3 (length (Split r tab)))))"
proof -
  from UnmarshalText_prefix [OF assms(1,2)] obtain st
    where n: "lineNum st = Suc (count_list pre newline)"
      and k: "\<And>more. scan loopEntry (pre @ more) = scan st more"
    by blast
  show ?thesis
  proof (intro conjI impI)
    assume c: "length (Split r tab) \<noteq> 2 \<and> length (Split r tab) \<noteq> 3"
    from scan_bad_module_line(1) [OF assms(3), of st rest] c n
    show "snd (UnmarshalText recv (pre @ (modLine @ r) @ newline # rest)) =
        Some (FormatError (count_list pre newline + 1) (ExpectedColumns2or3 (length (Split r tab))))"
      by (auto simp: UnmarshalText_loop k)
    from scan_bad_module_line(2) [OF assms(3), of st rest] c n
    show "snd (UnmarshalText recv (pre @ (depLine @ r) @ newline # rest)) =
        Some (FormatError (count_list pre newline + 1) (ExpectedColumns2or3 (length (Split r tab))))"
      by (auto simp: UnmarshalText_loop k)
  next
    assume c: "length (Split r tab) \<noteq> 3"
    from scan_bad_replace_line [OF assms(3) c, of st rest] n
    show "snd (UnmarshalText recv (pre @ (repLine @ r) @ newline # rest)) =
        Some (FormatError (count_list pre newline + 1) (ExpectedColumns3 (length (Split r tab))))"
      by (auto simp: UnmarshalText_loop k)
  qed
qed

text \<open>
  The example of the specification: the line \<open>mod A v1\<close>, then \<open>=>\<close> with the one column
  \<open>B\<close>, fails at line 2; so do \<open>mod B\<close> and \<open>dep B\<close> in its place.
\<close>

theorem column_count_errors_witness:
  "snd (UnmarshalText zeroBuildInfo (''mod'' @ [tab] @ ''A'' @ [tab] @ ''v1'' @ [newline])) = None \<and>
   snd (UnmarshalText zeroBuildInfo
     ((''mod'' @ [tab] @ ''A'' @ [tab] @ ''v1'' @ [newline]) @ (repLine @ ''B'') @ newline # [])) =
     Some (FormatError 2 (ExpectedColumns3 1)) \<and>
   snd (UnmarshalText zeroBuildInfo
     ((''mod'' @ [tab] @ ''A'' @ [tab] @ ''v1'' @ [newline]) @ (modLine @ ''B'') @ newline # [])) =
     Some (FormatError 2 (ExpectedColumns2or3 1)) \<and>
   snd (UnmarshalText zeroBuildInfo
     ((''mod'' @ [tab] @ ''A'' @ [tab] @ ''v1'' @ [newline]) @ (depLine @ ''B'') @ newline # [])) =
     Some (FormatError 2 (ExpectedColumns2or3 1))"
proof -
  let ?pre = "''mod'' @ [tab] @ ''A'' @ [tab] @ ''v1'' @ [newline]"
  have 1: "?pre = [] \<or> last ?pre = newline"
    by simp
  have 2: "snd (UnmarshalText zeroBuildInfo ?pre) = None"
    by code_simp
  have 3: "newline \<notin> set ''B''"
    by (simp add: newline_def)
  have 4: "length (Split ''B'' tab) = 1" "count_list ?pre newline = 1"
    by (simp_all add: tab_def newline_def)
  from column_count_errors [OF 1 2 3, of "[]"] 2 show ?thesis
    unfolding 4 by simp
qed

section \<open>The pointer to the last module\<close>

text \<open>
  The index held by \<open>DepPtr\<close> is always that of the last dependency, so the store
  through the pointer in \<open>setReplace\<close> reads \<^verbatim>\<open>Deps\<close> in range.
\<close>

lemma processLine_ptrValid: "ptrValid st \<Longrightarrow> ptrValid (fst (processLine st l))"
  by (auto simp: processLine_def ptrValid_def Let_def nth_append split: prod.splits modptr.splits)

lemma scan_ptrValid: "ptrValid st \<Longrightarrow> ptrValid (fst (scan st data))"
proof (induction "length data" arbitrary: data st rule: less_induct)
  case less
  show ?case
  proof (cases "newline \<in> set data")
    case False
    with less.prems show ?thesis
      by (simp add: scan_unterminated)
  next
    case True
    then obtain l rest where data: "data = l @ newline # rest" and l: "newline \<notin> set l"
      by (rule first_line)
    obtain st1 e1 where p: "processLine st l = (st1, e1)"
      by (cases "processLine st l")
    have st1: "ptrValid st1"
      using processLine_ptrValid [OF less.prems, of l] p by simp
    then have "ptrValid (st1\<lparr>lineNum := lineNum st1 + 1\<rparr>)"
      by (simp add: ptrValid_def split: modptr.splits)
    then have "ptrValid (fst (scan (st1\<lparr>lineNum := lineNum st1 + 1\<rparr>) rest))"
      using less.hyps [of rest] by (simp add: data)
    with l p st1 show ?thesis
      by (cases e1) (simp_all add: data scan_line)
  qed
qed

lemma UnmarshalText_ptrValid: "ptrValid (fst (scan loopEntry data))"
  by (rule scan_ptrValid) (simp add: ptrValid_def loopEntry_def)

lemma scan_noModuleLines:
  "list_all noModuleLine ls \<Longrightarrow>
   \<exists>st'. (\<forall>rest. scan st (unlines ls @ rest) = scan st' rest) \<and> last_ptr st' = last_ptr st \<and>
     bi_Main (bi st') = bi_Main (bi st) \<and> bi_Deps (bi st') = bi_Deps (bi st) \<and>
     lineNum st' = lineNum st + length ls"
proof (induction ls arbitrary: st)
  case Nil
  show ?case
    by (intro exI [of _ st]) (simp add: unlines_def)
next
  case (Cons l ls)
  then have l: "noModuleLine l" and ls: "list_all noModuleLine ls"
    by simp_all
  from l have nl: "newline \<notin> set l"
    by (simp add: noModuleLine_def)
  from processLine_noModuleLine [OF l, of st] obtain st1
    where p: "processLine st l = (st1, None)" and k: "last_ptr st1 = last_ptr st"
      "lineNum st1 = lineNum st" "bi_Main (bi st1) = bi_Main (bi st)"
      "bi_Deps (bi st1) = bi_Deps (bi st)"
    by blast
  from Cons.IH [OF ls, of "st1\<lparr>lineNum := lineNum st1 + 1\<rparr>"] obtain st'
    where r: "\<And>rest. scan (st1\<lparr>lineNum := lineNum st1 + 1\<rparr>) (unlines ls @ rest) = scan st' rest"
      and k': "last_ptr st' = last_ptr st1" "bi_Main (bi st') = bi_Main (bi st1)"
      "bi_Deps (bi st') = bi_Deps (bi st1)" "lineNum st' = lineNum st1 + 1 + length ls"
    by auto
  have "scan st (unlines (l # ls) @ rest) = scan st' rest" for rest
  proof -
    have "scan st (unlines (l # ls) @ rest) = scan st (l @ newline # (unlines ls @ rest))"
      by (simp add: unlines_def)
    also have "\<dots> = scan (st1\<lparr>lineNum := lineNum st1 + 1\<rparr>) (unlines ls @ rest)"
      by (subst scan_line [OF nl]) (simp add: p)
    also have "\<dots> = scan st' rest"
      by (rule r)
    finally show ?thesis .
  qed
  with k k' show ?case
    by (intro exI [of _ st']) simp
qed

lemma target_cleared_only_by_replace:
  assumes "last_ptr st \<noteq> NilPtr" and "last_ptr (fst (processLine st l)) = NilPtr"
  shows "HasPrefix l repLine \<and> snd (processLine st l) = None"
  using assms by (auto simp: processLine_def Let_def split: prod.splits if_splits)

lemma readModuleLine_ok:
  "length es = 2 \<or> length es = 3 \<Longrightarrow>
   readModuleLine es =
     (Module (es ! 0) (es ! 1) (if length es = 3 then es ! 2 else []) None, None)"
  by (auto simp: readModuleLine_def)

lemma scan_replace_line:
  assumes "newline \<notin> set rcols" and "Split rcols tab = [rp, rv, rs]" and "last_ptr st \<noteq> NilPtr"
  shows "scan st ((repLine @ rcols) @ [newline]) =
     (st\<lparr>bi := setReplace (last_ptr st) (Module rp rv rs None) (bi st), last_ptr := NilPtr,
         lineNum := lineNum st + 1\<rparr>, None)"
proof -
  have nl: "newline \<notin> set (repLine @ rcols)"
    using assms(1) by (simp add: newline_word)
  show ?thesis
    using assms(2,3)
    by (subst scan_line [OF nl]) (simp add: processLine_rep scan_Nil)
qed

lemma scan_module_then_replace:
  fixes st :: scanner
  assumes cols: "newline \<notin> set cols" "length (Split cols tab) = 2 \<or> length (Split cols tab) = 3"
    and ls: "list_all noModuleLine ls"
    and r: "newline \<notin> set rcols" "Split rcols tab = [rp, rv, rs]"
    and m: "m = Module (Split cols tab ! 0) (Split cols tab ! 1)
                  (if length (Split cols tab) = 3 then Split cols tab ! 2 else []) None"
  shows "\<exists>st'. scan st ((modLine @ cols) @ newline # unlines ls @ (repLine @ rcols) @ [newline]) =
             (st', None) \<and>
           bi_Main (bi st') = withReplace (Module rp rv rs None) m \<and>
           bi_Deps (bi st') = bi_Deps (bi st)"
    and "\<exists>st'. scan st ((depLine @ cols) @ newline # unlines ls @ (repLine @ rcols) @ [newline]) =
             (st', None) \<and>
           bi_Main (bi st') = bi_Main (bi st) \<and>
           bi_Deps (bi st') = bi_Deps (bi st) @ [Some (withReplace (Module rp rv rs None) m)]"
proof -
  have rm: "readModuleLine (Split cols tab) = (m, None)"
    using readModuleLine_ok [OF cols(2)] m by simp
  have nl: "newline \<notin> set (modLine @ cols)" "newline \<notin> set (depLine @ cols)"
    using cols(1) by (simp_all add: newline_word)
  let ?tail = "unlines ls @ (repLine @ rcols) @ [newline]"
  {
    let ?st1 = "st\<lparr>bi := (bi st)\<lparr>bi_Main := m\<rparr>, last_ptr := MainPtr, lineNum := lineNum st + 1\<rparr>"
    from scan_noModuleLines [OF ls, of ?st1] obtain st2
      where s2: "\<And>rest. scan ?st1 (unlines ls @ rest) = scan st2 rest"
        and k: "last_ptr st2 = MainPtr" "bi_Main (bi st2) = m" "bi_Deps (bi st2) = bi_Deps (bi st)"
      by auto
    have "scan st ((modLine @ cols) @ newline # ?tail) = scan ?st1 ?tail"
      by (subst scan_line [OF nl(1)]) (simp add: processLine_mod rm)
    also have "\<dots> = scan st2 ((repLine @ rcols) @ [newline])"
      by (rule s2)
    also have "\<dots> = (st2\<lparr>bi := setReplace (last_ptr st2) (Module rp rv rs None) (bi st2),
        last_ptr := NilPtr, lineNum := lineNum st2 + 1\<rparr>, None)"
      using k(1) by (intro scan_replace_line [OF r]) simp
    finally show "\<exists>st'. scan st ((modLine @ cols) @ newline # ?tail) = (st', None) \<and>
           bi_Main (bi st') = withReplace (Module rp rv rs None) m \<and>
           bi_Deps (bi st') = bi_Deps (bi st)"
      using k by (simp add: setReplace_def)
  }
  {
    let ?d = "bi_Deps (bi st)"
    let ?st1 = "st\<lparr>bi := (bi st)\<lparr>bi_Deps := ?d @ [Some m]\<rparr>, last_ptr := DepPtr (length ?d),
        lineNum := lineNum st + 1\<rparr>"
    from scan_noModuleLines [OF ls, of ?st1] obtain st2
      where s2: "\<And>rest. scan ?st1 (unlines ls @ rest) = scan st2 rest"
        and k: "last_ptr st2 = DepPtr (length ?d)" "bi_Main (bi st2) = bi_Main (bi st)"
          "bi_Deps (bi st2) = ?d @ [Some m]"
      by auto
    have "scan st ((depLine @ cols) @ newline # ?tail) = scan ?st1 ?tail"
      by (subst scan_line [OF nl(2)]) (simp add: processLine_dep rm)
    also have "\<dots> = scan st2 ((repLine @ rcols) @ [newline])"
      by (rule s2)
    also have "\<dots> = (st2\<lparr>bi := setReplace (last_ptr st2) (Module rp rv rs None) (bi st2),
        last_ptr := NilPtr, lineNum := lineNum st2 + 1\<rparr>, None)"
      using k(1) by (intro scan_replace_line [OF r]) simp
    finally show "\<exists>st'. scan st ((depLine @ cols) @ newline # ?tail) = (st', None) \<and>
           bi_Main (bi st') = bi_Main (bi st) \<and>
           bi_Deps (bi st') = ?d @ [Some (withReplace (Module rp rv rs None) m)]"
      using k by (simp add: setReplace_def)
  }
qed

text \<open>
  C9. The pointer \<^verbatim>\<open>last\<close> is set to nil only by a \<open>=>\<close> line that is read
  without an error. So when a mod or dep line with 2 or 3 columns stands after complete
  lines that decode without an error, and any lines that reach no module case (blank
  lines, path lines, unrecognised lines) stand between it and a \<open>=>\<close> line of 3 columns,
  the decoding succeeds and the replacement is the \<^verbatim>\<open>Replace\<close> of that module: of the
  main module after a mod line, of the new last dependency after a dep line.
\<close>

theorem replace_after_ignored_lines:
  assumes "pre = [] \<or> last pre = newline"
    and "UnmarshalText recv pre = (b0, None)"
    and "newline \<notin> set cols"
    and "length (Split cols tab) = 2 \<or> length (Split cols tab) = 3"
    and "list_all noModuleLine ls"
    and "newline \<notin> set rcols"
    and "Split rcols tab = [rp, rv, rs]"
    and "m = Module (Split cols tab ! 0) (Split cols tab ! 1)
               (if length (Split cols tab) = 3 then Split cols tab ! 2 else [])
               (Some (Module rp rv rs None))"
  shows "(\<exists>y. UnmarshalText recv
             (pre @ (modLine @ cols) @ newline # unlines ls @ (repLine @ rcols) @ [newline]) =
               (y, None) \<and>
             bi_Main y = m \<and> bi_Deps y = bi_Deps b0) \<and>
         (\<exists>y. UnmarshalText recv
             (pre @ (depLine @ cols) @ newline # unlines ls @ (repLine @ rcols) @ [newline]) =
               (y, None) \<and>
             bi_Main y = bi_Main b0 \<and> bi_Deps y = bi_Deps b0 @ [Some m]) \<and>
         (\<forall>st l. last_ptr st \<noteq> NilPtr \<and> last_ptr (fst (processLine st l)) = NilPtr \<longrightarrow>
            HasPrefix l repLine \<and> snd (processLine st l) = None)"
proof -
  from assms(2) have "snd (UnmarshalText recv pre) = None"
    by simp
  from UnmarshalText_prefix [OF assms(1) this] assms(2) obtain st
    where b: "bi st = b0" and k: "\<And>more. scan loopEntry (pre @ more) = scan st more"
    by auto
  let ?m0 = "Module (Split cols tab ! 0) (Split cols tab ! 1)
               (if length (Split cols tab) = 3 then Split cols tab ! 2 else []) None"
  have m: "m = withReplace (Module rp rv rs None) ?m0"
    by (simp add: assms(8) withReplace_def)
  note two = scan_module_then_replace [OF assms(3,4,5,6,7) refl, of st, folded m]
  from two(1) b have 1: "\<exists>y. UnmarshalText recv
      (pre @ (modLine @ cols) @ newline # unlines ls @ (repLine @ rcols) @ [newline]) = (y, None) \<and>
      bi_Main y = m \<and> bi_Deps y = bi_Deps b0"
    by (auto simp: UnmarshalText_loop k)
  from two(2) b have 2: "\<exists>y. UnmarshalText recv
      (pre @ (depLine @ cols) @ newline # unlines ls @ (repLine @ rcols) @ [newline]) = (y, None) \<and>
      bi_Main y = bi_Main b0 \<and> bi_Deps y = bi_Deps b0 @ [Some m]"
    by (auto simp: UnmarshalText_loop k)
  from 1 2 show ?thesis
    using target_cleared_only_by_replace by blast
qed

text \<open>
  After \<open>mod A v1\<close>: a blank line, a path line and a comment, then \<open>=> B v2 h2\<close>.
\<close>

theorem replace_after_ignored_lines_witness:
  "list_all noModuleLine [[], ''path'' @ [tab] @ ''cmd'', ''# note''] \<and>
   UnmarshalText zeroBuildInfo
     ([] @ (modLine @ ''A'' @ [tab] @ ''v1'') @ newline #
      unlines [[], ''path'' @ [tab] @ ''cmd'', ''# note''] @
      (repLine @ ''B'' @ [tab] @ ''v2'' @ [tab] @ ''h2'') @ [newline]) =
     (\<lparr>bi_Path = ''cmd'',
       bi_Main = Module ''A'' ''v1'' [] (Some (Module ''B'' ''v2'' ''h2'' None)),
       bi_Deps = []\<rparr>, None) \<and>
   UnmarshalText zeroBuildInfo
     ([] @ (depLine @ ''A'' @ [tab] @ ''v1'') @ newline #
      unlines [[], ''path'' @ [tab] @ ''cmd'', ''# note''] @
      (repLine @ ''B'' @ [tab] @ ''v2'' @ [tab] @ ''h2'') @ [newline]) =
     (\<lparr>bi_Path = ''cmd'', bi_Main = Module [] [] [] None,
       bi_Deps = [Some (Module ''A'' ''v1'' [] (Some (Module ''B'' ''v2'' ''h2'' None)))]\<rparr>, None)"
proof -
  let ?ls = "[[], ''path'' @ [tab] @ ''cmd'', ''# note'']"
  have 1: "([]::string) = [] \<or> last [] = newline"
    by simp
  have 2: "UnmarshalText zeroBuildInfo [] = (zeroBuildInfo, None)"
    by (rule UnmarshalText_Nil)
  have 3: "newline \<notin> set (''A'' @ [tab] @ ''v1'')"
    by (simp add: newline_def tab_def)
  have 4: "length (Split (''A'' @ [tab] @ ''v1'') tab) = 2 \<or> length (Split (''A'' @ [tab] @ ''v1'') tab) = 3"
    by (simp add: tab_def)
  have 5: "list_all noModuleLine ?ls"
    by (simp add: noModuleLine_def HasPrefix_def pathLine_def modLine_def depLine_def repLine_def
        newline_def tab_def)
  have 6: "newline \<notin> set (''B'' @ [tab] @ ''v2'' @ [tab] @ ''h2'')"
    by (simp add: newline_def tab_def)
  have 7: "Split (''B'' @ [tab] @ ''v2'' @ [tab] @ ''h2'') tab = [''B'', ''v2'', ''h2'']"
    by (simp add: tab_def)
  have e1: "UnmarshalText zeroBuildInfo
     ([] @ (modLine @ ''A'' @ [tab] @ ''v1'') @ newline # unlines ?ls @
      (repLine @ ''B'' @ [tab] @ ''v2'' @ [tab] @ ''h2'') @ [newline]) =
     (\<lparr>bi_Path = ''cmd'',
       bi_Main = Module ''A'' ''v1'' [] (Some (Module ''B'' ''v2'' ''h2'' None)),
       bi_Deps = []\<rparr>, None)"
    by code_simp
  have e2: "UnmarshalText zeroBuildInfo
     ([] @ (depLine @ ''A'' @ [tab] @ ''v1'') @ newline # unlines ?ls @
      (repLine @ ''B'' @ [tab] @ ''v2'' @ [tab] @ ''h2'') @ [newline]) =
     (\<lparr>bi_Path = ''cmd'', bi_Main = Module [] [] [] None,
       bi_Deps = [Some (Module ''A'' ''v1'' [] (Some (Module ''B'' ''v2'' ''h2'' None)))]\<rparr>, None)"
    by code_simp
  from replace_after_ignored_lines [OF 1 2 3 4 5 6 7 refl] 5 e1 e2 show ?thesis
    by simp
qed

lemma scan_orphan_replace:
  assumes "newline \<notin> set r" and "last_ptr st = NilPtr"
  shows "scan st ((repLine @ r) @ newline # rest) =
     (st, Some (if length (Split r tab) = 3 then NoModuleOnPreviousLine
                else ExpectedColumns3 (length (Split r tab))))"
proof -
  have nl: "newline \<notin> set (repLine @ r)"
    using assms(1) by (simp add: newline_word)
  show ?thesis
    using assms(2) by (subst scan_line [OF nl]) (simp add: processLine_rep Let_def)
qed

lemma scan_replace_then:
  assumes "newline \<notin> set r" and "length (Split r tab) = 3" and "last_ptr st \<noteq> NilPtr"
  shows "scan st ((repLine @ r) @ newline # rest) =
     scan (st\<lparr>bi := setReplace (last_ptr st)
                 (Module (Split r tab ! 0) (Split r tab ! 1) (Split r tab ! 2) None) (bi st),
              last_ptr := NilPtr, lineNum := lineNum st + 1\<rparr>) rest"
proof -
  have nl: "newline \<notin> set (repLine @ r)"
    using assms(1) by (simp add: newline_word)
  show ?thesis
    using assms(2,3) by (subst scan_line [OF nl]) (simp add: processLine_rep Let_def)
qed

text \<open>
  C6, as the code has it. Let \<open>st\<close> hold the variables of the loop after complete lines
  that decode without an error. A \<open>=>\<close> line read when \<^verbatim>\<open>last\<close> is nil always fails,
  and with exactly 3 columns the cause is "replacement with no module on previous line"
  (the count of columns is checked first). Read with 3 columns when \<^verbatim>\<open>last\<close> is not
  nil, the line succeeds and stores its module as the \<^verbatim>\<open>Replace\<close> of the module
  pointed to; it sets \<^verbatim>\<open>last\<close> to nil, so a second \<open>=>\<close> line of 3 columns right
  after it fails with that cause, one line further.
\<close>

theorem replace_needs_target:
  assumes "pre = [] \<or> last pre = newline"
    and "scan loopEntry pre = (st, None)"
    and "newline \<notin> set r"
  shows "(last_ptr st = NilPtr \<longrightarrow>
            snd (UnmarshalText recv (pre @ (repLine @ r) @ newline # rest)) \<noteq> None) \<and>
         (last_ptr st = NilPtr \<and> length (Split r tab) = 3 \<longrightarrow>
            UnmarshalText recv (pre @ (repLine @ r) @ newline # rest) =
              (bi st, Some (FormatError (count_list pre newline + 1) NoModuleOnPreviousLine))) \<and>
         (last_ptr st \<noteq> NilPtr \<and> length (Split r tab) = 3 \<longrightarrow>
            UnmarshalText recv (pre @ (repLine @ r) @ [newline]) =
              (setReplace (last_ptr st)
                 (Module (Split r tab ! 0) (Split r tab ! 1) (Split r tab ! 2) None) (bi st),
               None)) \<and>
         (last_ptr st \<noteq> NilPtr \<and> length (Split r tab) = 3 \<and>
          newline \<notin> set r2 \<and> length (Split r2 tab) = 3 \<longrightarrow>
            snd (UnmarshalText recv
                   (pre @ (repLine @ r) @ newline # (repLine @ r2) @ newline # rest)) =
              Some (FormatError (count_list pre newline + 2) NoModuleOnPreviousLine))"
proof -
  from scan_complete_lines [OF assms(1,2)]
  have k: "\<And>more. scan loopEntry (pre @ more) = scan st more"
    and n: "lineNum st = Suc (count_list pre newline)"
    by (simp_all add: loopEntry_def)
  show ?thesis
  proof (intro conjI impI)
    assume "last_ptr st = NilPtr"
    with scan_orphan_replace [OF assms(3), of st rest]
    show "snd (UnmarshalText recv (pre @ (repLine @ r) @ newline # rest)) \<noteq> None"
      by (simp add: UnmarshalText_loop k)
  next
    assume "last_ptr st = NilPtr \<and> length (Split r tab) = 3"
    with scan_orphan_replace [OF assms(3), of st rest]
    show "UnmarshalText recv (pre @ (repLine @ r) @ newline # rest) =
        (bi st, Some (FormatError (count_list pre newline + 1) NoModuleOnPreviousLine))"
      by (simp add: UnmarshalText_loop k n)
  next
    assume "last_ptr st \<noteq> NilPtr \<and> length (Split r tab) = 3"
    with scan_replace_then [OF assms(3), of st "[]"]
    show "UnmarshalText recv (pre @ (repLine @ r) @ [newline]) =
        (setReplace (last_ptr st)
           (Module (Split r tab ! 0) (Split r tab ! 1) (Split r tab ! 2) None) (bi st), None)"
      by (simp add: UnmarshalText_loop k scan_Nil)
  next
    assume a: "last_ptr st \<noteq> NilPtr \<and> length (Split r tab) = 3 \<and>
        newline \<notin> set r2 \<and> length (Split r2 tab) = 3"
    then have r2: "newline \<notin> set r2"
      by simp
    let ?st1 = "st\<lparr>bi := setReplace (last_ptr st)
        (Module (Split r tab ! 0) (Split r tab ! 1) (Split r tab ! 2) None) (bi st),
        last_ptr := NilPtr, lineNum := lineNum st + 1\<rparr>"
    from a scan_replace_then [OF assms(3), of st "(repLine @ r2) @ newline # rest"]
      scan_orphan_replace [OF r2, of ?st1 rest]
    show "snd (UnmarshalText recv
        (pre @ (repLine @ r) @ newline # (repLine @ r2) @ newline # rest)) =
        Some (FormatError (count_list pre newline + 2) NoModuleOnPreviousLine)"
      by (simp add: UnmarshalText_loop k n)
  qed
qed

text \<open>
  The example of the specification, \<open>=> A v1 sum\<close> as the first line, fails at line 1. After
  \<open>mod A v1\<close>, the line \<open>=> B v2 h2\<close> is attached to the main module, and a second
  line \<open>=> C v3 h3\<close> fails at line 3.
\<close>

theorem replace_needs_target_witness:
  "UnmarshalText zeroBuildInfo
     ([] @ (repLine @ ''A'' @ [tab] @ ''v1'' @ [tab] @ ''sum'') @ newline # []) =
     (zeroBuildInfo, Some (FormatError 1 NoModuleOnPreviousLine)) \<and>
   UnmarshalText zeroBuildInfo
     ((''mod'' @ [tab] @ ''A'' @ [tab] @ ''v1'' @ [newline]) @
      (repLine @ ''B'' @ [tab] @ ''v2'' @ [tab] @ ''h2'') @ [newline]) =
     (\<lparr>bi_Path = [], bi_Main = Module ''A'' ''v1'' [] (Some (Module ''B'' ''v2'' ''h2'' None)),
       bi_Deps = []\<rparr>, None) \<and>
   snd (UnmarshalText zeroBuildInfo
     ((''mod'' @ [tab] @ ''A'' @ [tab] @ ''v1'' @ [newline]) @
      (repLine @ ''B'' @ [tab] @ ''v2'' @ [tab] @ ''h2'') @ newline #
      (repLine @ ''C'' @ [tab] @ ''v3'' @ [tab] @ ''h3'') @ newline # [])) =
     Some (FormatError 3 NoModuleOnPreviousLine)"
proof -
  let ?pre = "''mod'' @ [tab] @ ''A'' @ [tab] @ ''v1'' @ [newline]"
  let ?st = "\<lparr>bi = \<lparr>bi_Path = [], bi_Main = Module ''A'' ''v1'' [] None, bi_Deps = []\<rparr>,
      last_ptr = MainPtr, lineNum = 2\<rparr>"
  let ?r = "''B'' @ [tab] @ ''v2'' @ [tab] @ ''h2''"
  let ?r2 = "''C'' @ [tab] @ ''v3'' @ [tab] @ ''h3''"
  let ?a = "''A'' @ [tab] @ ''v1'' @ [tab] @ ''sum''"
  have a1: "([]::string) = [] \<or> last [] = newline"
    by simp
  have a2: "scan loopEntry [] = (loopEntry, None)"
    by (rule scan_Nil)
  have a3: "newline \<notin> set ?a" "length (Split ?a tab) = 3"
    by (simp_all add: newline_def tab_def)
  have b1: "?pre = [] \<or> last ?pre = newline"
    by simp
  have b2: "scan loopEntry ?pre = (?st, None)"
    by code_simp
  have b3: "newline \<notin> set ?r" "Split ?r tab = [''B'', ''v2'', ''h2'']"
    "newline \<notin> set ?r2" "length (Split ?r2 tab) = 3"
    by (simp_all add: newline_def tab_def)
  have c: "count_list ?pre newline = 1"
    by (simp add: newline_def tab_def)
  from replace_needs_target [OF a1 a2 a3(1), of zeroBuildInfo "[]"] a3(2)
  have 1: "UnmarshalText zeroBuildInfo ([] @ (repLine @ ?a) @ newline # []) =
      (zeroBuildInfo, Some (FormatError 1 NoModuleOnPreviousLine))"
    by (simp add: loopEntry_def)
  from replace_needs_target [OF b1 b2 b3(1), of zeroBuildInfo "[]" ?r2] b3
  have 2: "UnmarshalText zeroBuildInfo (?pre @ (repLine @ ?r) @ [newline]) =
      (\<lparr>bi_Path = [], bi_Main = Module ''A'' ''v1'' [] (Some (Module ''B'' ''v2'' ''h2'' None)),
        bi_Deps = []\<rparr>, None)"
    and 3: "snd (UnmarshalText zeroBuildInfo
      (?pre @ (repLine @ ?r) @ newline # (repLine @ ?r2) @ newline # [])) =
      Some (FormatError 3 NoModuleOnPreviousLine)"
    unfolding c by (simp_all add: setReplace_def withReplace_def)
  from 1 2 3 show ?thesis
    by (intro conjI)
qed

text \<open>
  The line \<open>=> B\<close> as the first line has no target either, and the error is the
  count of columns, not the missing module.
\<close>

theorem orphan_replace_column_error:
  "UnmarshalText zeroBuildInfo (''=>'' @ [tab] @ ''B'' @ [newline]) =
     (\<lparr>bi_Path = [], bi_Main = Module [] [] [] None, bi_Deps = []\<rparr>,
      Some (FormatError 1 (ExpectedColumns3 1))) \<and>
   snd (UnmarshalText zeroBuildInfo (''=>'' @ [tab] @ ''B'' @ [newline])) \<noteq>
     Some (FormatError 1 NoModuleOnPreviousLine)"
  by code_simp

section \<open>Decoding what MarshalText writes\<close>

lemma setReplace_Main_None: 
  "setReplace MainPtr r (b\<lparr>bi_Main := m\<rparr>) = b\<lparr>bi_Main := withReplace r m\<rparr>"
  by (simp add: setReplace_def)

lemma consumes_mod:
  assumes "plainModule m"
  shows "consumes (formatMod ''mod'' m) (\<lambda>b. b\<lparr>bi_Main := decodedModule m\<rparr>)"
proof (cases "Replace m")
  case None
  with assms have f: "plainField (Path m)" "plainField (develVersion (Version m))" "plainField (Sum m)"
    by (simp_all add: plainModule_def plainField_develVersion)
  let ?cols = "Path m @ tab # develVersion (Version m) @ tab # Sum m"
  have enc: "formatMod ''mod'' m = (modLine @ ?cols) @ [newline]"
    using None by (simp add: formatMod_unreplaced modLine_def)
  have nl: "newline \<notin> set (modLine @ ?cols)"
    using f by (simp add: plainField_def newline_word tab_not_newline [symmetric])
  have "Split ?cols tab = [Path m, develVersion (Version m), Sum m]"
    using f by (simp add: plainField_def Split3)
  then have "\<exists>st'. processLine st (modLine @ ?cols) = (st', None) \<and>
      bi st' = (bi st)\<lparr>bi_Main := decodedModule m\<rparr>" for st
    using None by (simp add: processLine_mod readModuleLine3 decodedModule_def)
  with nl show ?thesis
    unfolding enc by (rule consumes_line)
next
  case (Some r)
  with assms have f: "plainField (Path m)" "plainField (develVersion (Version m))"
    and g: "plainField (Path r)" "plainField (develVersion (Version r))" "plainField (Sum r)"
    and r: "Replace r = None"
    by (simp_all add: plainModule_def plainReplace_def plainField_develVersion)
  let ?cols = "Path m @ tab # develVersion (Version m)"
  let ?rcols = "Path r @ tab # develVersion (Version r) @ tab # Sum r"
  have enc: "formatMod ''mod'' m =
      (modLine @ ?cols) @ newline # (repLine @ ?rcols) @ newline # [] @ newline # []"
    using Some r by (simp add: formatMod_replaced modLine_def)
  have nl: "newline \<notin> set (modLine @ ?cols)" "newline \<notin> set (repLine @ ?rcols)"
    using f g by (simp_all add: plainField_def newline_word tab_not_newline [symmetric])
  have s1: "Split ?cols tab = [Path m, develVersion (Version m)]"
    using f by (simp add: plainField_def Split2)
  have s2: "Split ?rcols tab = [Path r, develVersion (Version r), Sum r]"
    using g by (simp add: plainField_def Split3)
  show ?thesis
    unfolding consumes_def
  proof (intro allI)
    fix st :: scanner and rest :: string
    let ?st1 = "st\<lparr>bi := (bi st)\<lparr>bi_Main := Module (Path m) (develVersion (Version m)) [] None\<rparr>,
        last_ptr := MainPtr\<rparr>"
    let ?b = "(bi st)\<lparr>bi_Main := decodedModule m\<rparr>"
    let ?st2 = "st\<lparr>bi := ?b, last_ptr := NilPtr, lineNum := Suc (lineNum st)\<rparr>"
    let ?st3 = "st\<lparr>bi := ?b, last_ptr := NilPtr, lineNum := Suc (Suc (Suc (lineNum st)))\<rparr>"
    have p1: "processLine st (modLine @ ?cols) = (?st1, None)"
      by (simp add: processLine_mod s1 readModuleLine2)
    have "scan st (formatMod ''mod'' m @ rest) =
        scan st ((modLine @ ?cols) @ newline # (repLine @ ?rcols) @ newline # [] @ newline # rest)"
      by (simp add: enc)
    also have "\<dots> = scan (?st1\<lparr>lineNum := lineNum ?st1 + 1\<rparr>)
        ((repLine @ ?rcols) @ newline # [] @ newline # rest)"
      by (subst scan_line [OF nl(1)]) (simp add: p1)
    also have "\<dots> = scan (?st2\<lparr>lineNum := lineNum ?st2 + 1\<rparr>) ([] @ newline # rest)"
      using Some
      by (subst scan_line [OF nl(2)])
        (simp add: processLine_rep s2 setReplace_Main_None withReplace_def decodedModule_def
          decodedReplace_def)
    also have "\<dots> = scan ?st3 rest"
      by (subst scan_line) (simp_all add: processLine_empty)
    finally have "scan st (formatMod ''mod'' m @ rest) = scan ?st3 rest" .
    then show "\<exists>st'. scan st (formatMod ''mod'' m @ rest) = scan st' rest \<and> bi st' = ?b"
      by (intro exI [of _ ?st3]) simp
  qed
qed

lemma consumes_path:
  assumes "newline \<notin> set p"
  shows "consumes (''path'' @ [tab] @ p @ [newline]) (\<lambda>b. b\<lparr>bi_Path := p\<rparr>)"
proof -
  have enc: "''path'' @ [tab] @ p @ [newline] = (pathLine @ p) @ [newline]"
    by (simp add: pathLine_def)
  have nl: "newline \<notin> set (pathLine @ p)"
    using assms by (simp add: newline_word)
  have "\<exists>st'. processLine st (pathLine @ p) = (st', None) \<and> bi st' = (bi st)\<lparr>bi_Path := p\<rparr>" for st
    by (simp add: processLine_path)
  with nl show ?thesis
    unfolding enc by (rule consumes_line)
qed

lemma consumes_eq: "consumes t f \<Longrightarrow> (\<And>b. f b = g b) \<Longrightarrow> consumes t g"
  by (simp add: consumes_def)

lemma consumes_deps:
  "list_all plainDep ds \<Longrightarrow>
   \<exists>out. formatDeps ds = Inr out \<and>
     consumes out (\<lambda>b. b\<lparr>bi_Deps := bi_Deps b @ map (map_option decodedModule) ds\<rparr>)"
proof (induction ds)
  case Nil
  have "consumes [] (\<lambda>b::BuildInfo. b\<lparr>bi_Deps := bi_Deps b @ map (map_option decodedModule) []\<rparr>)"
    by (rule consumes_eq [OF consumes_Nil]) simp
  then show ?case
    by simp
next
  case (Cons d ds)
  from Cons.prems have pd: "plainDep d" and ds: "list_all plainDep ds"
    by simp_all
  from pd obtain m where d: "d = Some m" and m: "plainModule m"
    by (cases d) (simp_all add: plainDep_def)
  from Cons.IH [OF ds] obtain out where out: "formatDeps ds = Inr out"
    and c: "consumes out (\<lambda>b. b\<lparr>bi_Deps := bi_Deps b @ map (map_option decodedModule) ds\<rparr>)"
    by blast
  have "consumes (formatMod ''dep'' m @ out)
      (\<lambda>b. b\<lparr>bi_Deps := bi_Deps b @ map (map_option decodedModule) (d # ds)\<rparr>)"
    by (rule consumes_eq [OF consumes_append [OF consumes_dep [OF m] c]]) (simp add: d)
  with out d show ?case
    by simp
qed

lemma consumes_result:
  assumes "consumes t f"
  shows "UnmarshalText recv t = (f zeroBuildInfo, None)"
proof -
  from assms obtain st' where "scan loopEntry (t @ []) = scan st' []" and "bi st' = f (bi loopEntry)"
    unfolding consumes_def by blast
  then show ?thesis
    by (simp add: UnmarshalText_loop scan_Nil loopEntry_def)
qed

text \<open>
  Decoding what \<^verbatim>\<open>MarshalText\<close> writes of a plain BuildInfo succeeds, with every
  version as it was written and no checksum for a module with a replacement.
\<close>

lemma decode_encode:
  assumes "plainInfo x"
  shows "\<exists>s. MarshalText x = Inr s \<and> UnmarshalText recv s = (decodedInfo x, None)"
proof -
  from assms have p: "newline \<notin> set (bi_Path x)"
    and m: "Path (bi_Main x) = [] \<or> plainModule (bi_Main x)"
    and ds: "list_all plainDep (bi_Deps x)"
    by (simp_all add: plainInfo_def)
  from consumes_deps [OF ds] obtain out where out: "formatDeps (bi_Deps x) = Inr out"
    and c3: "consumes out (\<lambda>b. b\<lparr>bi_Deps := bi_Deps b @ map (map_option decodedModule) (bi_Deps x)\<rparr>)"
    by blast
  let ?t1 = "if bi_Path x \<noteq> [] then ''path'' @ [tab] @ bi_Path x @ [newline] else []"
  let ?t2 = "if Path (bi_Main x) \<noteq> [] then formatMod ''mod'' (bi_Main x) else []"
  let ?f1 = "\<lambda>b::BuildInfo. if bi_Path x \<noteq> [] then b\<lparr>bi_Path := bi_Path x\<rparr> else b"
  let ?f2 = "\<lambda>b::BuildInfo.
      if Path (bi_Main x) \<noteq> [] then b\<lparr>bi_Main := decodedModule (bi_Main x)\<rparr> else b"
  let ?f3 = "\<lambda>b::BuildInfo. b\<lparr>bi_Deps := bi_Deps b @ map (map_option decodedModule) (bi_Deps x)\<rparr>"
  have c1: "consumes ?t1 ?f1"
    using consumes_path [OF p] consumes_Nil by (cases "bi_Path x = []") simp_all
  have c2: "consumes ?t2 ?f2"
    using m consumes_mod [of "bi_Main x"] consumes_Nil by (cases "Path (bi_Main x) = []") simp_all
  have s: "MarshalText x = Inr (?t1 @ ?t2 @ out)"
    by (simp add: MarshalText_def out)
  have c: "consumes (?t1 @ ?t2 @ out) (\<lambda>b. ?f3 (?f2 (?f1 b)))"
    by (rule consumes_append [OF c1 consumes_append [OF c2 c3]])
  have "?f3 (?f2 (?f1 zeroBuildInfo)) = decodedInfo x"
    by (simp add: decodedInfo_def zeroBuildInfo_def)
  with consumes_result [OF c, of recv] s show ?thesis
    by simp
qed

section \<open>Cycles of encoding and decoding\<close>

lemma develVersion_set: "v \<noteq> [] \<Longrightarrow> develVersion v = v"
  by (simp add: develVersion_def)

lemma develVersion_idem: "develVersion (develVersion v) = develVersion v"
  by (simp add: develVersion_def)

lemma decodedModule_exact:
  assumes "plainModule m" and "versionsSet m" and "sumOnlyUnreplaced m"
  shows "decodedModule m = m"
proof (cases m)
  case (Module p v s r)
  show ?thesis
  proof (cases r)
    case None
    with Module assms show ?thesis
      by (simp add: decodedModule_def develVersion_set)
  next
    case (Some q)
    with Module assms have "Replace q = None" and "Version q \<noteq> []" and "s = []" and "v \<noteq> []"
      by (cases q; simp add: plainModule_def plainReplace_def sumOnlyUnreplaced_def)+
    with Module Some show ?thesis
      by (cases q) (simp add: decodedModule_def decodedReplace_def develVersion_set)
  qed
qed

lemma decodedModule_idem: "decodedModule (decodedModule m) = decodedModule m"
  by (cases "Replace m")
    (simp_all add: decodedModule_def decodedReplace_def develVersion_idem)

lemma decodedModule_Path: "Path (decodedModule m) = Path m"
  by (cases "Replace m") (simp_all add: decodedModule_def)

lemma decodedModule_Version: "Version (decodedModule m) = develVersion (Version m)"
  by (cases "Replace m") (simp_all add: decodedModule_def)

lemma decodedModule_Replace:
  "Replace (decodedModule m) = map_option decodedReplace (Replace m)"
  by (cases "Replace m") (simp_all add: decodedModule_def)

lemma plainField_Nil: "plainField []"
  by (simp add: plainField_def)

lemma plainModule_decoded: "plainModule m \<Longrightarrow> plainModule (decodedModule m)"
  by (cases "Replace m")
    (simp_all add: plainModule_def plainReplace_def decodedModule_def decodedReplace_def
      plainField_develVersion plainField_Nil)

lemma plainInfo_decoded:
  assumes "plainInfo x"
  shows "plainInfo (decodedInfo x)"
proof -
  have "plainDep (map_option decodedModule d)" if "plainDep d" for d
    using that by (cases d) (simp_all add: plainDep_def plainModule_decoded)
  then have "list_all plainDep (map (map_option decodedModule) ds)" if "list_all plainDep ds" for ds
    using that by (induction ds) simp_all
  with assms show ?thesis
    by (auto simp: plainInfo_def decodedInfo_def zeroModule_def plainModule_decoded)
qed

lemma decodedInfo_idem: "decodedInfo (decodedInfo x) = decodedInfo x"
  by (simp add: decodedInfo_def decodedModule_idem decodedModule_Path zeroModule_def
      option.map_comp comp_def)

lemma decodedInfo_exact:
  assumes "plainInfo x" and "allVersionsSet x" and "allSumsWritten x" and "Path (bi_Main x) \<noteq> []"
  shows "decodedInfo x = x"
proof -
  have "map (map_option decodedModule) ds = ds"
    if "list_all plainDep ds"
      and "list_all (\<lambda>d. case d of None \<Rightarrow> True | Some m \<Rightarrow> versionsSet m) ds"
      and "list_all (\<lambda>d. case d of None \<Rightarrow> True | Some m \<Rightarrow> sumOnlyUnreplaced m) ds" for ds
    using that
  proof (induction ds)
    case Nil
    show ?case by simp
  next
    case (Cons d ds)
    then show ?case
      by (cases d) (simp_all add: plainDep_def decodedModule_exact)
  qed
  with assms show ?thesis
    by (simp add: decodedInfo_def plainInfo_def allVersionsSet_def allSumsWritten_def
        decodedModule_exact)
qed

lemma decodedDeps_exact:
  assumes "list_all plainDep ds"
    and "list_all (\<lambda>d. case d of None \<Rightarrow> True | Some m \<Rightarrow> versionsSet m \<and> sumOnlyUnreplaced m) ds"
  shows "map (map_option decodedModule) ds = ds"
  using assms
proof (induction ds)
  case Nil
  show ?case by simp
next
  case (Cons d ds)
  then show ?case
    by (cases d) (simp_all add: plainDep_def decodedModule_exact)
qed

lemma decodedDeps_Path:
  "map (map_option Path) (map (map_option decodedModule) ds) = map (map_option Path) ds"
  by (simp add: option.map_comp comp_def decodedModule_Path)

text \<open>
  C1, as the code has it. Decoding what \<^verbatim>\<open>MarshalText\<close> writes of \<open>x\<close> gives \<open>x\<close>
  back when every version is set and, besides: no field holds a tab or a newline (the
  path no newline), no dependency is nil, a replacement has no replacement of its own, the
  path of the main module is not empty, and a module with a replacement has no checksum.
\<close>

theorem round_trip:
  assumes "allVersionsSet x"
    and "plainInfo x"
    and "Path (bi_Main x) \<noteq> []"
    and "allSumsWritten x"
  shows "\<exists>s. MarshalText x = Inr s \<and> UnmarshalText recv s = (x, None)"
proof -
  from decode_encode [OF assms(2), of recv] obtain s
    where "MarshalText x = Inr s" and "UnmarshalText recv s = (decodedInfo x, None)"
    by blast
  moreover have "decodedInfo x = x"
    using assms(2,1,4,3) by (rule decodedInfo_exact)
  ultimately show ?thesis
    by auto
qed

text \<open>
  A main module with a replacement and two equal dependencies: the text written is
  decoded to the same BuildInfo.
\<close>

theorem round_trip_witness:
  "allVersionsSet
     \<lparr>bi_Path = ''cmd'',
      bi_Main = Module ''m'' ''v1'' [] (Some (Module ''r'' ''v2'' ''h2'' None)),
      bi_Deps = [Some (Module ''a'' ''v3'' ''h3'' None), Some (Module ''a'' ''v3'' ''h3'' None)]\<rparr> \<and>
   plainInfo
     \<lparr>bi_Path = ''cmd'',
      bi_Main = Module ''m'' ''v1'' [] (Some (Module ''r'' ''v2'' ''h2'' None)),
      bi_Deps = [Some (Module ''a'' ''v3'' ''h3'' None), Some (Module ''a'' ''v3'' ''h3'' None)]\<rparr> \<and>
   allSumsWritten
     \<lparr>bi_Path = ''cmd'',
      bi_Main = Module ''m'' ''v1'' [] (Some (Module ''r'' ''v2'' ''h2'' None)),
      bi_Deps = [Some (Module ''a'' ''v3'' ''h3'' None), Some (Module ''a'' ''v3'' ''h3'' None)]\<rparr> \<and>
   (\<exists>s. MarshalText
          \<lparr>bi_Path = ''cmd'',
           bi_Main = Module ''m'' ''v1'' [] (Some (Module ''r'' ''v2'' ''h2'' None)),
           bi_Deps = [Some (Module ''a'' ''v3'' ''h3'' None), Some (Module ''a'' ''v3'' ''h3'' None)]\<rparr> =
          Inr s \<and>
        UnmarshalText zeroBuildInfo s =
          (\<lparr>bi_Path = ''cmd'',
            bi_Main = Module ''m'' ''v1'' [] (Some (Module ''r'' ''v2'' ''h2'' None)),
            bi_Deps = [Some (Module ''a'' ''v3'' ''h3'' None), Some (Module ''a'' ''v3'' ''h3'' None)]\<rparr>,
           None))"
proof -
  let ?x = "\<lparr>bi_Path = ''cmd'',
      bi_Main = Module ''m'' ''v1'' [] (Some (Module ''r'' ''v2'' ''h2'' None)),
      bi_Deps = [Some (Module ''a'' ''v3'' ''h3'' None), Some (Module ''a'' ''v3'' ''h3'' None)]\<rparr>"
  have 1: "allVersionsSet ?x"
    by (simp add: allVersionsSet_def)
  have 2: "plainInfo ?x"
    by (simp add: plainInfo_def plainDep_def plainModule_def plainReplace_def plainField_def
        tab_def newline_def)
  have 3: "Path (bi_Main ?x) \<noteq> []"
    by simp
  have 4: "allSumsWritten ?x"
    by (simp add: allSumsWritten_def sumOnlyUnreplaced_def)
  from round_trip [OF 1 2 3 4, of zeroBuildInfo] 1 2 4 show ?thesis
    by (intro conjI)
qed

text \<open>
  Every version is set in each of these, and the BuildInfo does not come back: the
  checksum \<open>h1\<close> of a main module with a replacement is not written; a main module with
  an empty path is not written at all; a replacement of a replacement is written as a
  \<open>=>\<close> line of 2 columns, and the decoding fails; a path that holds a tab gives a
  line of 4 columns, and the decoding fails; a nil dependency makes \<^verbatim>\<open>MarshalText\<close>
  panic.
\<close>

theorem round_trip_counterexample:
  "allVersionsSet
     \<lparr>bi_Path = ''cmd'',
      bi_Main = Module ''m'' ''v1'' ''h1'' (Some (Module ''r'' ''v2'' ''h2'' None)),
      bi_Deps = []\<rparr> \<and>
   MarshalText
     \<lparr>bi_Path = ''cmd'',
      bi_Main = Module ''m'' ''v1'' ''h1'' (Some (Module ''r'' ''v2'' ''h2'' None)),
      bi_Deps = []\<rparr> =
     Inr (''path'' @ [tab] @ ''cmd'' @ [newline] @
          ''mod'' @ [tab] @ ''m'' @ [tab] @ ''v1'' @ [newline] @
          ''=>'' @ [tab] @ ''r'' @ [tab] @ ''v2'' @ [tab] @ ''h2'' @ [newline] @ [newline]) \<and>
   UnmarshalText zeroBuildInfo
     (''path'' @ [tab] @ ''cmd'' @ [newline] @
      ''mod'' @ [tab] @ ''m'' @ [tab] @ ''v1'' @ [newline] @
      ''=>'' @ [tab] @ ''r'' @ [tab] @ ''v2'' @ [tab] @ ''h2'' @ [newline] @ [newline]) =
     (\<lparr>bi_Path = ''cmd'',
       bi_Main = Module ''m'' ''v1'' [] (Some (Module ''r'' ''v2'' ''h2'' None)),
       bi_Deps = []\<rparr>, None) \<and>
   Module ''m'' ''v1'' [] (Some (Module ''r'' ''v2'' ''h2'' None)) \<noteq>
     Module ''m'' ''v1'' ''h1'' (Some (Module ''r'' ''v2'' ''h2'' None)) \<and>
   allVersionsSet \<lparr>bi_Path = [], bi_Main = Module [] ''v1'' [] None, bi_Deps = []\<rparr> \<and>
   MarshalText \<lparr>bi_Path = [], bi_Main = Module [] ''v1'' [] None, bi_Deps = []\<rparr> = Inr [] \<and>
   UnmarshalText zeroBuildInfo [] =
     (\<lparr>bi_Path = [], bi_Main = Module [] [] [] None, bi_Deps = []\<rparr>, None) \<and>
   allVersionsSet
     \<lparr>bi_Path = [], bi_Main = Module ''m'' ''v1'' [] None,
      bi_Deps = [Some (Module ''a'' ''v2'' []
                   (Some (Module ''b'' ''v3'' [] (Some (Module ''c'' ''v4'' ''h4'' None)))))]\<rparr> \<and>
   MarshalText
     \<lparr>bi_Path = [], bi_Main = Module ''m'' ''v1'' [] None,
      bi_Deps = [Some (Module ''a'' ''v2'' []
                   (Some (Module ''b'' ''v3'' [] (Some (Module ''c'' ''v4'' ''h4'' None)))))]\<rparr> =
     Inr (''mod'' @ [tab] @ ''m'' @ [tab] @ ''v1'' @ [tab] @ [newline] @
          ''dep'' @ [tab] @ ''a'' @ [tab] @ ''v2'' @ [newline] @
          ''=>'' @ [tab] @ ''b'' @ [tab] @ ''v3'' @ [newline] @
          ''=>'' @ [tab] @ ''c'' @ [tab] @ ''v4'' @ [tab] @ ''h4'' @ [newline] @
          [newline] @ [newline]) \<and>
   snd (UnmarshalText zeroBuildInfo
     (''mod'' @ [tab] @ ''m'' @ [tab] @ ''v1'' @ [tab] @ [newline] @
      ''dep'' @ [tab] @ ''a'' @ [tab] @ ''v2'' @ [newline] @
      ''=>'' @ [tab] @ ''b'' @ [tab] @ ''v3'' @ [newline] @
      ''=>'' @ [tab] @ ''c'' @ [tab] @ ''v4'' @ [tab] @ ''h4'' @ [newline] @
      [newline] @ [newline])) =
     Some (FormatError 3 (ExpectedColumns3 2)) \<and>
   allVersionsSet
     \<lparr>bi_Path = [], bi_Main = Module ''m'' ''v1'' [] None,
      bi_Deps = [Some (Module (''a'' @ [tab] @ ''b'') ''v2'' ''h2'' None)]\<rparr> \<and>
   MarshalText
     \<lparr>bi_Path = [], bi_Main = Module ''m'' ''v1'' [] None,
      bi_Deps = [Some (Module (''a'' @ [tab] @ ''b'') ''v2'' ''h2'' None)]\<rparr> =
     Inr (''mod'' @ [tab] @ ''m'' @ [tab] @ ''v1'' @ [tab] @ [newline] @
          ''dep'' @ [tab] @ ''a'' @ [tab] @ ''b'' @ [tab] @ ''v2'' @ [tab] @ ''h2'' @ [newline]) \<and>
   snd (UnmarshalText zeroBuildInfo
     (''mod'' @ [tab] @ ''m'' @ [tab] @ ''v1'' @ [tab] @ [newline] @
      ''dep'' @ [tab] @ ''a'' @ [tab] @ ''b'' @ [tab] @ ''v2'' @ [tab] @ ''h2'' @ [newline])) =
     Some (FormatError 2 (ExpectedColumns2or3 4)) \<and>
   allVersionsSet \<lparr>bi_Path = [], bi_Main = Module ''m'' ''v1'' [] None, bi_Deps = [None]\<rparr> \<and>
   MarshalText \<lparr>bi_Path = [], bi_Main = Module ''m'' ''v1'' [] None, bi_Deps = [None]\<rparr> =
     Inl NilDereference"
  by code_simp

text \<open>
  C2, as the code has it. For a BuildInfo \<open>x\<close> whose text decodes line by line (no tab
  or newline in a field, no nil dependency, no replacement of a replacement), decoding
  what \<^verbatim>\<open>MarshalText\<close> writes succeeds with a BuildInfo \<open>y\<close> in which every empty
  version that was written reads \<open>(devel)\<close>: that of the main module when its path is
  not empty (it is written only then), of its replacement, of each dependency at its
  position, and of the replacement of each dependency. A second cycle gives \<open>y\<close> again.
\<close>

theorem devel_normalization:
  assumes "plainInfo x"
  shows "\<exists>s y. MarshalText x = Inr s \<and> UnmarshalText recv s = (y, None) \<and>
     (Path (bi_Main x) \<noteq> [] \<and> Version (bi_Main x) = [] \<longrightarrow>
        Version (bi_Main y) = ''(devel)'') \<and>
     (\<forall>r. Path (bi_Main x) \<noteq> [] \<and> Replace (bi_Main x) = Some r \<and> Version r = [] \<longrightarrow>
        (\<exists>r'. Replace (bi_Main y) = Some r' \<and> Version r' = ''(devel)'')) \<and>
     length (bi_Deps y) = length (bi_Deps x) \<and>
     (\<forall>i m. i < length (bi_Deps x) \<and> bi_Deps x ! i = Some m \<and> Version m = [] \<longrightarrow>
        (\<exists>m'. bi_Deps y ! i = Some m' \<and> Version m' = ''(devel)'')) \<and>
     (\<forall>i m r. i < length (bi_Deps x) \<and> bi_Deps x ! i = Some m \<and> Replace m = Some r \<and>
        Version r = [] \<longrightarrow>
        (\<exists>m' r'. bi_Deps y ! i = Some m' \<and> Replace m' = Some r' \<and> Version r' = ''(devel)'')) \<and>
     (\<exists>s'. MarshalText y = Inr s' \<and> UnmarshalText recv s' = (y, None))"
proof -
  let ?y = "decodedInfo x"
  from decode_encode [OF assms, of recv] obtain s
    where s: "MarshalText x = Inr s" "UnmarshalText recv s = (?y, None)"
    by blast
  from decode_encode [OF plainInfo_decoded [OF assms], of recv]
  have again: "\<exists>s'. MarshalText ?y = Inr s' \<and> UnmarshalText recv s' = (?y, None)"
    by (simp add: decodedInfo_idem)
  have main: "Path (bi_Main x) \<noteq> [] \<and> Version (bi_Main x) = [] \<longrightarrow>
      Version (bi_Main ?y) = ''(devel)''"
    by (simp add: decodedInfo_def decodedModule_Version develVersion_def)
  have mainr: "\<forall>r. Path (bi_Main x) \<noteq> [] \<and> Replace (bi_Main x) = Some r \<and> Version r = [] \<longrightarrow>
      (\<exists>r'. Replace (bi_Main ?y) = Some r' \<and> Version r' = ''(devel)'')"
    by (simp add: decodedInfo_def decodedModule_Replace decodedReplace_def develVersion_def)
  have len: "length (bi_Deps ?y) = length (bi_Deps x)"
    by (simp add: decodedInfo_def)
  have deps: "\<forall>i m. i < length (bi_Deps x) \<and> bi_Deps x ! i = Some m \<and> Version m = [] \<longrightarrow>
      (\<exists>m'. bi_Deps ?y ! i = Some m' \<and> Version m' = ''(devel)'')"
    by (simp add: decodedInfo_def decodedModule_Version develVersion_def)
  have depsr: "\<forall>i m r. i < length (bi_Deps x) \<and> bi_Deps x ! i = Some m \<and> Replace m = Some r \<and>
      Version r = [] \<longrightarrow>
      (\<exists>m' r'. bi_Deps ?y ! i = Some m' \<and> Replace m' = Some r' \<and> Version r' = ''(devel)'')"
    by (simp add: decodedInfo_def decodedModule_Replace decodedReplace_def develVersion_def)
  from s main mainr len deps depsr again show ?thesis
    by blast
qed

text \<open>
  An empty version in the main module, in a dependency and in its replacement: each
  reads \<open>(devel)\<close> after the first cycle, and the second cycle changes nothing.
\<close>

theorem devel_normalization_witness:
  "plainInfo
     \<lparr>bi_Path = ''cmd'', bi_Main = Module ''m'' [] ''h1'' None,
      bi_Deps = [Some (Module ''a'' [] [] (Some (Module ''b'' [] ''h2'' None)))]\<rparr> \<and>
   MarshalText
     \<lparr>bi_Path = ''cmd'', bi_Main = Module ''m'' [] ''h1'' None,
      bi_Deps = [Some (Module ''a'' [] [] (Some (Module ''b'' [] ''h2'' None)))]\<rparr> =
     Inr (''path'' @ [tab] @ ''cmd'' @ [newline] @
          ''mod'' @ [tab] @ ''m'' @ [tab] @ ''(devel)'' @ [tab] @ ''h1'' @ [newline] @
          ''dep'' @ [tab] @ ''a'' @ [tab] @ ''(devel)'' @ [newline] @
          ''=>'' @ [tab] @ ''b'' @ [tab] @ ''(devel)'' @ [tab] @ ''h2'' @ [newline] @ [newline]) \<and>
   UnmarshalText zeroBuildInfo
     (''path'' @ [tab] @ ''cmd'' @ [newline] @
      ''mod'' @ [tab] @ ''m'' @ [tab] @ ''(devel)'' @ [tab] @ ''h1'' @ [newline] @
      ''dep'' @ [tab] @ ''a'' @ [tab] @ ''(devel)'' @ [newline] @
      ''=>'' @ [tab] @ ''b'' @ [tab] @ ''(devel)'' @ [tab] @ ''h2'' @ [newline] @ [newline]) =
     (\<lparr>bi_Path = ''cmd'', bi_Main = Module ''m'' ''(devel)'' ''h1'' None,
       bi_Deps = [Some (Module ''a'' ''(devel)'' []
                    (Some (Module ''b'' ''(devel)'' ''h2'' None)))]\<rparr>, None) \<and>
   MarshalText
     \<lparr>bi_Path = ''cmd'', bi_Main = Module ''m'' ''(devel)'' ''h1'' None,
      bi_Deps = [Some (Module ''a'' ''(devel)'' []
                   (Some (Module ''b'' ''(devel)'' ''h2'' None)))]\<rparr> =
     Inr (''path'' @ [tab] @ ''cmd'' @ [newline] @
          ''mod'' @ [tab] @ ''m'' @ [tab] @ ''(devel)'' @ [tab] @ ''h1'' @ [newline] @
          ''dep'' @ [tab] @ ''a'' @ [tab] @ ''(devel)'' @ [newline] @
          ''=>'' @ [tab] @ ''b'' @ [tab] @ ''(devel)'' @ [tab] @ ''h2'' @ [newline] @ [newline])"
proof -
  let ?x = "\<lparr>bi_Path = ''cmd'', bi_Main = Module ''m'' [] ''h1'' None,
      bi_Deps = [Some (Module ''a'' [] [] (Some (Module ''b'' [] ''h2'' None)))]\<rparr>"
  let ?y = "\<lparr>bi_Path = ''cmd'', bi_Main = Module ''m'' ''(devel)'' ''h1'' None,
      bi_Deps = [Some (Module ''a'' ''(devel)'' []
                   (Some (Module ''b'' ''(devel)'' ''h2'' None)))]\<rparr>"
  let ?s = "''path'' @ [tab] @ ''cmd'' @ [newline] @
          ''mod'' @ [tab] @ ''m'' @ [tab] @ ''(devel)'' @ [tab] @ ''h1'' @ [newline] @
          ''dep'' @ [tab] @ ''a'' @ [tab] @ ''(devel)'' @ [newline] @
          ''=>'' @ [tab] @ ''b'' @ [tab] @ ''(devel)'' @ [tab] @ ''h2'' @ [newline] @ [newline]"
  have 1: "plainInfo ?x"
    by (simp add: plainInfo_def plainDep_def plainModule_def plainReplace_def plainField_def
        tab_def newline_def)
  have 2: "MarshalText ?x = Inr ?s"
    by code_simp
  have 3: "UnmarshalText zeroBuildInfo ?s = (?y, None)"
    by code_simp
  have 4: "MarshalText ?y = Inr ?s"
    by code_simp
  from devel_normalization [OF 1, of zeroBuildInfo] 1 2 3 4 show ?thesis
    by (intro conjI)
qed

text \<open>
  The main module of this BuildInfo has an empty version and an empty path: it is not
  written, and its version is empty after the cycle. The dependency of the second holds
  a tab in its path: its line has 4 columns, and the decoding fails. The dependency of
  the third has a replacement of a replacement: the first \<open>=>\<close> line has 2 columns,
  and the decoding fails. The fourth has a nil dependency: \<^verbatim>\<open>MarshalText\<close> panics.
\<close>

theorem devel_normalization_counterexample:
  "Version (bi_Main \<lparr>bi_Path = ''cmd'', bi_Main = Module [] [] [] None,
                     bi_Deps = [Some (Module ''a'' ''v1'' ''h1'' None)]\<rparr>) = [] \<and>
   MarshalText \<lparr>bi_Path = ''cmd'', bi_Main = Module [] [] [] None,
                bi_Deps = [Some (Module ''a'' ''v1'' ''h1'' None)]\<rparr> =
     Inr (''path'' @ [tab] @ ''cmd'' @ [newline] @
          ''dep'' @ [tab] @ ''a'' @ [tab] @ ''v1'' @ [tab] @ ''h1'' @ [newline]) \<and>
   UnmarshalText zeroBuildInfo
     (''path'' @ [tab] @ ''cmd'' @ [newline] @
      ''dep'' @ [tab] @ ''a'' @ [tab] @ ''v1'' @ [tab] @ ''h1'' @ [newline]) =
     (\<lparr>bi_Path = ''cmd'', bi_Main = Module [] [] [] None,
       bi_Deps = [Some (Module ''a'' ''v1'' ''h1'' None)]\<rparr>, None) \<and>
   Version (Module [] [] [] None) \<noteq> ''(devel)'' \<and>
   MarshalText \<lparr>bi_Path = [], bi_Main = Module [] [] [] None,
                bi_Deps = [Some (Module (''a'' @ [tab] @ ''b'') [] ''h1'' None)]\<rparr> =
     Inr (''dep'' @ [tab] @ ''a'' @ [tab] @ ''b'' @ [tab] @ ''(devel)'' @ [tab] @ ''h1'' @ [newline]) \<and>
   UnmarshalText zeroBuildInfo
     (''dep'' @ [tab] @ ''a'' @ [tab] @ ''b'' @ [tab] @ ''(devel)'' @ [tab] @ ''h1'' @ [newline]) =
     (\<lparr>bi_Path = [], bi_Main = Module [] [] [] None, bi_Deps = [Some (Module [] [] [] None)]\<rparr>,
      Some (FormatError 1 (ExpectedColumns2or3 4))) \<and>
   MarshalText
     \<lparr>bi_Path = [], bi_Main = Module [] [] [] None,
      bi_Deps = [Some (Module ''a'' [] []
                   (Some (Module ''b'' ''v2'' [] (Some (Module ''c'' ''v3'' ''h3'' None)))))]\<rparr> =
     Inr (''dep'' @ [tab] @ ''a'' @ [tab] @ ''(devel)'' @ [newline] @
          ''=>'' @ [tab] @ ''b'' @ [tab] @ ''v2'' @ [newline] @
          ''=>'' @ [tab] @ ''c'' @ [tab] @ ''v3'' @ [tab] @ ''h3'' @ [newline] @
          [newline] @ [newline]) \<and>
   snd (UnmarshalText zeroBuildInfo
     (''dep'' @ [tab] @ ''a'' @ [tab] @ ''(devel)'' @ [newline] @
      ''=>'' @ [tab] @ ''b'' @ [tab] @ ''v2'' @ [newline] @
      ''=>'' @ [tab] @ ''c'' @ [tab] @ ''v3'' @ [tab] @ ''h3'' @ [newline] @
      [newline] @ [newline])) =
     Some (FormatError 2 (ExpectedColumns3 2)) \<and>
   MarshalText \<lparr>bi_Path = [], bi_Main = Module ''m'' [] [] None, bi_Deps = [None]\<rparr> =
     Inl NilDereference"
  by code_simp

lemma processLine_dep_appends:
  "bi_Deps (bi (fst (processLine st (depLine @ cols)))) =
   bi_Deps (bi st) @ [Some (fst (readModuleLine (Split cols tab)))]"
  by (simp add: processLine_dep split: prod.splits)

text \<open>
  C7, as the code has it. A dep line appends one module at the end of \<^verbatim>\<open>Deps\<close>,
  whatever \<^verbatim>\<open>Deps\<close> holds. For a BuildInfo \<open>x\<close> whose text decodes line by line (no
  tab or newline in a field, no nil dependency, no replacement of a replacement), decoding
  what \<^verbatim>\<open>MarshalText\<close> writes gives as many dependencies, with the same paths in the
  same order; and it gives the dependencies of \<open>x\<close> themselves when each has its versions
  set and, if it has a replacement, no checksum.
\<close>

theorem deps_order_preserved:
  assumes "plainInfo x"
  shows "\<exists>s y. MarshalText x = Inr s \<and> UnmarshalText recv s = (y, None) \<and>
     map (map_option Path) (bi_Deps y) = map (map_option Path) (bi_Deps x) \<and>
     (list_all (\<lambda>d. case d of None \<Rightarrow> True | Some m \<Rightarrow> versionsSet m \<and> sumOnlyUnreplaced m)
        (bi_Deps x) \<longrightarrow> bi_Deps y = bi_Deps x) \<and>
     (\<forall>st cols. bi_Deps (bi (fst (processLine st (depLine @ cols)))) =
        bi_Deps (bi st) @ [Some (fst (readModuleLine (Split cols tab)))])"
proof -
  let ?y = "decodedInfo x"
  from decode_encode [OF assms, of recv] obtain s
    where s: "MarshalText x = Inr s" "UnmarshalText recv s = (?y, None)"
    by blast
  from assms have pd: "list_all plainDep (bi_Deps x)"
    by (simp add: plainInfo_def)
  have paths: "map (map_option Path) (bi_Deps ?y) = map (map_option Path) (bi_Deps x)"
    using decodedDeps_Path [of "bi_Deps x"] by (simp add: decodedInfo_def)
  have exact: "list_all (\<lambda>d. case d of None \<Rightarrow> True | Some m \<Rightarrow> versionsSet m \<and> sumOnlyUnreplaced m)
        (bi_Deps x) \<longrightarrow> bi_Deps ?y = bi_Deps x"
    using decodedDeps_exact [OF pd] by (simp add: decodedInfo_def)
  from s paths exact processLine_dep_appends show ?thesis
    by blast
qed

text \<open>
  Two equal dependencies, so with the same path: both come back, in their places.
\<close>

theorem deps_order_preserved_witness:
  "plainInfo
     \<lparr>bi_Path = [], bi_Main = Module [] [] [] None,
      bi_Deps = [Some (Module ''a'' ''v1'' ''h1'' None), Some (Module ''b'' ''v2'' ''h2'' None),
                 Some (Module ''a'' ''v1'' ''h1'' None)]\<rparr> \<and>
   MarshalText
     \<lparr>bi_Path = [], bi_Main = Module [] [] [] None,
      bi_Deps = [Some (Module ''a'' ''v1'' ''h1'' None), Some (Module ''b'' ''v2'' ''h2'' None),
                 Some (Module ''a'' ''v1'' ''h1'' None)]\<rparr> =
     Inr (''dep'' @ [tab] @ ''a'' @ [tab] @ ''v1'' @ [tab] @ ''h1'' @ [newline] @
          ''dep'' @ [tab] @ ''b'' @ [tab] @ ''v2'' @ [tab] @ ''h2'' @ [newline] @
          ''dep'' @ [tab] @ ''a'' @ [tab] @ ''v1'' @ [tab] @ ''h1'' @ [newline]) \<and>
   UnmarshalText zeroBuildInfo
     (''dep'' @ [tab] @ ''a'' @ [tab] @ ''v1'' @ [tab] @ ''h1'' @ [newline] @
      ''dep'' @ [tab] @ ''b'' @ [tab] @ ''v2'' @ [tab] @ ''h2'' @ [newline] @
      ''dep'' @ [tab] @ ''a'' @ [tab] @ ''v1'' @ [tab] @ ''h1'' @ [newline]) =
     (\<lparr>bi_Path = [], bi_Main = Module [] [] [] None,
       bi_Deps = [Some (Module ''a'' ''v1'' ''h1'' None), Some (Module ''b'' ''v2'' ''h2'' None),
                  Some (Module ''a'' ''v1'' ''h1'' None)]\<rparr>, None)"
proof -
  let ?x = "\<lparr>bi_Path = [], bi_Main = Module [] [] [] None,
      bi_Deps = [Some (Module ''a'' ''v1'' ''h1'' None), Some (Module ''b'' ''v2'' ''h2'' None),
                 Some (Module ''a'' ''v1'' ''h1'' None)]\<rparr>"
  let ?s = "''dep'' @ [tab] @ ''a'' @ [tab] @ ''v1'' @ [tab] @ ''h1'' @ [newline] @
          ''dep'' @ [tab] @ ''b'' @ [tab] @ ''v2'' @ [tab] @ ''h2'' @ [newline] @
          ''dep'' @ [tab] @ ''a'' @ [tab] @ ''v1'' @ [tab] @ ''h1'' @ [newline]"
  have 1: "plainInfo ?x"
    by (simp add: plainInfo_def plainDep_def plainModule_def plainReplace_def plainField_def
        tab_def newline_def)
  have 2: "MarshalText ?x = Inr ?s"
    by code_simp
  have 3: "list_all (\<lambda>d. case d of None \<Rightarrow> True | Some m \<Rightarrow> versionsSet m \<and> sumOnlyUnreplaced m)
      (bi_Deps ?x)"
    by (simp add: sumOnlyUnreplaced_def)
  from deps_order_preserved [OF 1, of zeroBuildInfo] 2 3
  have "\<exists>y. UnmarshalText zeroBuildInfo ?s = (y, None) \<and> bi_Deps y = bi_Deps ?x"
    by auto
  moreover have "bi_Path (fst (UnmarshalText zeroBuildInfo ?s)) = []"
    and "bi_Main (fst (UnmarshalText zeroBuildInfo ?s)) = Module [] [] [] None"
    by code_simp+
  ultimately have "UnmarshalText zeroBuildInfo ?s = (?x, None)"
    by auto
  with 1 2 show ?thesis
    by (intro conjI)
qed

text \<open>
  Two dependencies with the same path and no version come back with the version
  \<open>(devel)\<close>; two with a replacement and a checksum come back without the checksum.
  Neither list is the one encoded. With a tab in the path of the first dependency the
  decoding fails at line 1, and with a nil dependency \<^verbatim>\<open>MarshalText\<close> panics.
\<close>

theorem deps_order_preserved_counterexample:
  "MarshalText
     \<lparr>bi_Path = [], bi_Main = Module [] [] [] None,
      bi_Deps = [Some (Module ''a'' [] ''h1'' None), Some (Module ''a'' [] ''h2'' None)]\<rparr> =
     Inr (''dep'' @ [tab] @ ''a'' @ [tab] @ ''(devel)'' @ [tab] @ ''h1'' @ [newline] @
          ''dep'' @ [tab] @ ''a'' @ [tab] @ ''(devel)'' @ [tab] @ ''h2'' @ [newline]) \<and>
   UnmarshalText zeroBuildInfo
     (''dep'' @ [tab] @ ''a'' @ [tab] @ ''(devel)'' @ [tab] @ ''h1'' @ [newline] @
      ''dep'' @ [tab] @ ''a'' @ [tab] @ ''(devel)'' @ [tab] @ ''h2'' @ [newline]) =
     (\<lparr>bi_Path = [], bi_Main = Module [] [] [] None,
       bi_Deps = [Some (Module ''a'' ''(devel)'' ''h1'' None),
                  Some (Module ''a'' ''(devel)'' ''h2'' None)]\<rparr>, None) \<and>
   [Some (Module ''a'' ''(devel)'' ''h1'' None), Some (Module ''a'' ''(devel)'' ''h2'' None)] \<noteq>
     [Some (Module ''a'' [] ''h1'' None), Some (Module ''a'' [] ''h2'' None)] \<and>
   MarshalText
     \<lparr>bi_Path = [], bi_Main = Module [] [] [] None,
      bi_Deps = [Some (Module ''a'' ''v1'' ''h1'' (Some (Module ''b'' ''v2'' ''h2'' None))),
                 Some (Module ''a'' ''v1'' ''h1'' (Some (Module ''b'' ''v2'' ''h2'' None)))]\<rparr> =
     Inr (''dep'' @ [tab] @ ''a'' @ [tab] @ ''v1'' @ [newline] @
          ''=>'' @ [tab] @ ''b'' @ [tab] @ ''v2'' @ [tab] @ ''h2'' @ [newline] @ [newline] @
          ''dep'' @ [tab] @ ''a'' @ [tab] @ ''v1'' @ [newline] @
          ''=>'' @ [tab] @ ''b'' @ [tab] @ ''v2'' @ [tab] @ ''h2'' @ [newline] @ [newline]) \<and>
   UnmarshalText zeroBuildInfo
     (''dep'' @ [tab] @ ''a'' @ [tab] @ ''v1'' @ [newline] @
      ''=>'' @ [tab] @ ''b'' @ [tab] @ ''v2'' @ [tab] @ ''h2'' @ [newline] @ [newline] @
      ''dep'' @ [tab] @ ''a'' @ [tab] @ ''v1'' @ [newline] @
      ''=>'' @ [tab] @ ''b'' @ [tab] @ ''v2'' @ [tab] @ ''h2'' @ [newline] @ [newline]) =
     (\<lparr>bi_Path = [], bi_Main = Module [] [] [] None,
       bi_Deps = [Some (Module ''a'' ''v1'' [] (Some (Module ''b'' ''v2'' ''h2'' None))),
                  Some (Module ''a'' ''v1'' [] (Some (Module ''b'' ''v2'' ''h2'' None)))]\<rparr>, None) \<and>
   Module ''a'' ''v1'' [] (Some (Module ''b'' ''v2'' ''h2'' None)) \<noteq>
     Module ''a'' ''v1'' ''h1'' (Some (Module ''b'' ''v2'' ''h2'' None)) \<and>
   MarshalText
     \<lparr>bi_Path = [], bi_Main = Module [] [] [] None,
      bi_Deps = [Some (Module (''a'' @ [tab] @ ''b'') ''v1'' ''h1'' None),
                 Some (Module ''c'' ''v2'' ''h2'' None)]\<rparr> =
     Inr (''dep'' @ [tab] @ ''a'' @ [tab] @ ''b'' @ [tab] @ ''v1'' @ [tab] @ ''h1'' @ [newline] @
          ''dep'' @ [tab] @ ''c'' @ [tab] @ ''v2'' @ [tab] @ ''h2'' @ [newline]) \<and>
   UnmarshalText zeroBuildInfo
     (''dep'' @ [tab] @ ''a'' @ [tab] @ ''b'' @ [tab] @ ''v1'' @ [tab] @ ''h1'' @ [newline] @
      ''dep'' @ [tab] @ ''c'' @ [tab] @ ''v2'' @ [tab] @ ''h2'' @ [newline]) =
     (\<lparr>bi_Path = [], bi_Main = Module [] [] [] None, bi_Deps = [Some (Module [] [] [] None)]\<rparr>,
      Some (FormatError 1 (ExpectedColumns2or3 4))) \<and>
   MarshalText
     \<lparr>bi_Path = [], bi_Main = Module [] [] [] None,
      bi_Deps = [Some (Module ''a'' ''v1'' ''h1'' None), None]\<rparr> =
     Inl NilDereference"
  by code_simp

end
